theory Spec2Isabelle
  imports Main "HOL-Library.Word" "HOL-Library.AList"
begin

section \<open>Data model of the process manager\<close>

text \<open>
  The model follows \<^verbatim>\<open>internal/node/processmanager/firecracker_procman.go\<close>.
  Go pointers to VMs and to deploy requests are addresses into two stores, because the
  same \<^verbatim>\<open>*runningFirecracker\<close> is held by \<^verbatim>\<open>allVMs\<close> and by the
  \<^verbatim>\<open>poolVMs\<close> channel, and the same \<^verbatim>\<open>*AgentWorkloadInfo\<close> is held by
  \<^verbatim>\<open>deployRequests\<close> and by the VM. A nil pointer is \<open>None\<close>.
  Go maps are association lists read with \<open>map_of\<close>, written with \<open>AList.update\<close>
  and \<open>AList.delete\<close>. The 64-bit counters and resource sizes are \<open>64 word\<close>, the
  \<^verbatim>\<open>closing\<close> counter is a \<open>32 word\<close>.
\<close>

type_synonym vm_ref = nat
type_synonym req_ref = nat

text \<open>The fields of \<^verbatim>\<open>agentapi.AgentWorkloadInfo\<close> that the process manager reads or writes.\<close>

record AgentWorkloadInfo =
  WorkloadName :: "string option"
  Namespace :: "string option"
  WorkloadType :: string
  TotalBytes :: "64 word"
  Essential :: "bool option"

text \<open>
  The fields of \<^verbatim>\<open>runningFirecracker\<close> that the process manager reads or writes;
  \<open>VcpuCount\<close> and \<open>MemSizeMib\<close> stand for \<^verbatim>\<open>*vm.machine.Cfg.MachineCfg.VcpuCount\<close>
  and \<^verbatim>\<open>*vm.machine.Cfg.MachineCfg.MemSizeMib\<close>.
\<close>

record runningFirecracker =
  vmmID :: string
  deployRequest :: "req_ref option"
  namespace :: string
  workloadStarted :: nat
  VcpuCount :: "64 word"
  MemSizeMib :: "64 word"

text \<open>A buffered Go channel: its buffer, its capacity and whether it has been closed.\<close>

record 'a chan =
  buf :: "'a list"
  cap :: nat
  closed :: bool

datatype 'a recv_result = RecvBlocks | RecvZero | RecvValue 'a "'a chan"

definition chan_recv :: "'a chan \<Rightarrow> 'a recv_result" where
  "chan_recv ch =
     (case buf ch of
        x # xs \<Rightarrow> RecvValue x (ch\<lparr>buf := xs\<rparr>)
      | [] \<Rightarrow> (if closed ch then RecvZero else RecvBlocks))"

datatype 'a send_result = SendBlocks | SendPanics | SendOk "'a chan"

definition chan_send :: "'a \<Rightarrow> 'a chan \<Rightarrow> 'a send_result" where
  "chan_send x ch =
     (if closed ch then SendPanics
      else if length (buf ch) < cap ch then SendOk (ch\<lparr>buf := buf ch @ [x]\<rparr>)
      else SendBlocks)"

definition chan_close :: "'a chan \<Rightarrow> 'a chan option" where
  "chan_close ch = (if closed ch then None else Some (ch\<lparr>closed := True\<rparr>))"

text \<open>
  The telemetry counters. One time series per counter and attribute set; \<^verbatim>\<open>Add\<close> adds
  to the series of the attributes it is given (64-bit, wrapping).
\<close>

datatype counter =
  VmCounter | WorkloadCounter | DeployedByteCounter | AllocatedVCPUCounter | AllocatedMemoryCounter

type_synonym attrs = "(string \<times> string) list"
type_synonym Telemetry = "counter \<times> attrs \<Rightarrow> 64 word"

definition Add :: "counter \<Rightarrow> 64 word \<Rightarrow> attrs \<Rightarrow> Telemetry \<Rightarrow> Telemetry" where
  "Add c v as tm = tm((c, as) := tm (c, as) + v)"

datatype level = Debug | Info | Warn | Error

datatype effect =
  Log level string
  | VmShutdown vm_ref
  | OnProcessStarted string
  | ResetCNI
  | CleanSockets

datatype error =
  NoAvailableVM
  | FailedToStopMachine string

datatype outcome = Returned "error option" | Panic | Blocks

record FirecrackerProcessManager =
  closing :: "32 word"
  MachinePoolSize :: int
  PreserveNetwork :: bool
  stopMutex :: "string list"
  telemetry :: Telemetry
  allVMs :: "(string \<times> vm_ref) list"
  poolVMs :: "vm_ref chan"
  deployRequests :: "(string \<times> req_ref) list"
  vms :: "vm_ref \<Rightarrow> runningFirecracker"
  reqs :: "req_ref \<Rightarrow> AgentWorkloadInfo"
  next_vm :: vm_ref
  effects :: "effect list"

text \<open>
  \<^verbatim>\<open>NewFirecrackerProcessManager\<close>: empty maps and a channel of capacity
  \<^verbatim>\<open>config.MachinePoolSize\<close>. \<^verbatim>\<open>make(chan T, n)\<close> panics for negative \<open>n\<close>:
  the result is \<open>None\<close> then. The telemetry handle and the two stores are passed in.
\<close>

definition NewFirecrackerProcessManager ::
  "int \<Rightarrow> bool \<Rightarrow> Telemetry \<Rightarrow> (vm_ref \<Rightarrow> runningFirecracker) \<Rightarrow> (req_ref \<Rightarrow> AgentWorkloadInfo)
   \<Rightarrow> FirecrackerProcessManager option" where
  "NewFirecrackerProcessManager poolSize preserve tm vs rs =
     (if poolSize < 0 then None
      else Some \<lparr>closing = 0, MachinePoolSize = poolSize, PreserveNetwork = preserve,
                 stopMutex = [], telemetry = tm, allVMs = [],
                 poolVMs = \<lparr>buf = [], cap = nat poolSize, closed = False\<rparr>,
                 deployRequests = [], vms = vs, reqs = rs, next_vm = 0, effects = []\<rparr>)"

definition stopping :: "FirecrackerProcessManager \<Rightarrow> bool" where
  "stopping f = (closing f > 0)"

section \<open>PrepareWorkload and StopProcess\<close>

text \<open>
  \<^verbatim>\<open>PrepareWorkload\<close> receives from \<^verbatim>\<open>poolVMs\<close>: with an empty open channel it
  blocks, with an empty closed channel it gets nil and returns the error. It writes the
  VM through the pointer before it dereferences \<^verbatim>\<open>deployRequest\<close> and
  \<^verbatim>\<open>deployRequest.Namespace\<close>; either being nil panics after the VM has left the
  channel. The \<^verbatim>\<open>workloadId\<close> argument is not used by the body.
\<close>

definition PrepareWorkload ::
  "nat \<Rightarrow> string \<Rightarrow> req_ref option \<Rightarrow> FirecrackerProcessManager \<Rightarrow> outcome \<times> FirecrackerProcessManager" where
  "PrepareWorkload now workloadId dr f =
     (case chan_recv (poolVMs f) of
        RecvBlocks \<Rightarrow> (Blocks, f)
      | RecvZero \<Rightarrow> (Returned (Some NoAvailableVM), f)
      | RecvValue vm ch \<Rightarrow>
          (let f1 = f\<lparr>poolVMs := ch, vms := (vms f)(vm := (vms f vm)\<lparr>deployRequest := dr\<rparr>)\<rparr>
           in case dr of
                None \<Rightarrow> (Panic, f1)
              | Some r \<Rightarrow>
                  (case Namespace (reqs f1 r) of
                     None \<Rightarrow> (Panic, f1)
                   | Some ns \<Rightarrow>
                       (let v = (vms f1 vm)\<lparr>namespace := ns, workloadStarted := now\<rparr>;
                            tm = Add AllocatedMemoryCounter (MemSizeMib v) [(''namespace'', ns)]
                                  (Add AllocatedMemoryCounter (MemSizeMib v) []
                                    (Add AllocatedVCPUCounter (VcpuCount v) [(''namespace'', ns)]
                                      (Add AllocatedVCPUCounter (VcpuCount v) [] (telemetry f1))))
                        in (Returned None,
                            f1\<lparr>vms := (vms f1)(vm := v),
                                deployRequests := AList.update (vmmID v) r (deployRequests f1),
                                telemetry := tm\<rparr>)))))"

text \<open>
  \<^verbatim>\<open>StopProcess\<close>: an id that is not a key of \<^verbatim>\<open>allVMs\<close> returns the error before
  anything else is touched. A missing \<^verbatim>\<open>stopMutex\<close> entry is a nil mutex, and locking
  it panics.
\<close>

definition StopProcess :: "string \<Rightarrow> FirecrackerProcessManager \<Rightarrow> outcome \<times> FirecrackerProcessManager" where
  "StopProcess workloadID f =
     (case map_of (allVMs f) workloadID of
        None \<Rightarrow> (Returned (Some (FailedToStopMachine workloadID)), f)
      | Some vm \<Rightarrow>
          (if workloadID \<notin> set (stopMutex f) then (Panic, f)
           else
             (let v = vms f vm;
                  t1 = (case deployRequest v of
                          None \<Rightarrow> telemetry f
                        | Some r \<Rightarrow>
                            Add DeployedByteCounter (TotalBytes (reqs f r) * (-1)) [(''namespace'', namespace v)]
                             (Add DeployedByteCounter (TotalBytes (reqs f r) * (-1)) []
                               (Add WorkloadCounter (-1)
                                  [(''workload_type'', WorkloadType (reqs f r)), (''namespace'', namespace v)]
                                 (Add WorkloadCounter (-1) [(''workload_type'', WorkloadType (reqs f r))]
                                   (telemetry f)))));
                  t2 = Add AllocatedMemoryCounter (MemSizeMib v * (-1)) [(''namespace'', namespace v)]
                        (Add AllocatedMemoryCounter (MemSizeMib v * (-1)) []
                          (Add AllocatedVCPUCounter (VcpuCount v * (-1)) [(''namespace'', namespace v)]
                            (Add AllocatedVCPUCounter (VcpuCount v * (-1)) []
                              (Add VmCounter (-1) [] t1))))
              in (Returned None,
                  f\<lparr>effects := effects f @ [Log Debug ''Attempting to stop virtual machine'', VmShutdown vm],
                     allVMs := AList.delete workloadID (allVMs f),
                     deployRequests := AList.delete workloadID (deployRequests f),
                     stopMutex := removeAll workloadID (stopMutex f),
                     telemetry := t2\<rparr>))))"

section \<open>EnterLameDuck and Stop\<close>

text \<open>
  \<^verbatim>\<open>EnterLameDuck\<close> writes \<^verbatim>\<open>Essential = &nope\<close> through every pointer stored in
  \<^verbatim>\<open>deployRequests\<close> and returns nil. It touches nothing else.
\<close>

definition set_nonessential :: "req_ref \<Rightarrow> (req_ref \<Rightarrow> AgentWorkloadInfo) \<Rightarrow> (req_ref \<Rightarrow> AgentWorkloadInfo)" where
  "set_nonessential r h = h(r := (h r)\<lparr>Essential := Some False\<rparr>)"

definition EnterLameDuck :: "FirecrackerProcessManager \<Rightarrow> outcome \<times> FirecrackerProcessManager" where
  "EnterLameDuck f =
     (Returned None, f\<lparr>reqs := fold set_nonessential (map snd (deployRequests f)) (reqs f)\<rparr>)"

text \<open>
  The loop of \<^verbatim>\<open>Stop\<close> over the keys of \<^verbatim>\<open>allVMs\<close>: each \<^verbatim>\<open>StopProcess\<close> deletes
  only the key it is called with, so the loop visits the keys present at its start. An
  error is logged and the loop goes on; a panic leaves the loop.
\<close>

fun stop_all :: "string list \<Rightarrow> FirecrackerProcessManager \<Rightarrow> outcome \<times> FirecrackerProcessManager" where
  "stop_all [] f = (Returned None, f)"
| "stop_all (vmID # ids) f =
     (case StopProcess vmID f of
        (Returned None, f1) \<Rightarrow> stop_all ids f1
      | (Returned (Some e), f1) \<Rightarrow>
          stop_all ids (f1\<lparr>effects := effects f1 @ [Log Warn ''Failed to stop firecracker process'']\<rparr>)
      | (r, f1) \<Rightarrow> (r, f1))"

text \<open>
  \<^verbatim>\<open>Stop\<close>: \<^verbatim>\<open>atomic.AddUint32(&f.closing, 1) == 1\<close> guards the teardown body. Closing a
  channel that is already closed panics.
\<close>

definition Stop :: "FirecrackerProcessManager \<Rightarrow> outcome \<times> FirecrackerProcessManager" where
  "Stop f =
     (let f1 = f\<lparr>closing := closing f + 1\<rparr>
      in if closing f1 = 1 then
           (let f2 = f1\<lparr>effects := effects f1 @ [Log Debug ''Firecracker process manager stopping'']\<rparr>
            in case chan_close (poolVMs f2) of
                 None \<Rightarrow> (Panic, f2)
               | Some ch \<Rightarrow>
                   (case stop_all (map fst (allVMs f2)) (f2\<lparr>poolVMs := ch\<rparr>) of
                      (Returned e, f3) \<Rightarrow> (Returned None, f3\<lparr>effects := effects f3 @ [CleanSockets]\<rparr>)
                    | (r, f3) \<Rightarrow> (r, f3)))
         else (Returned None, f1))"

text \<open>The results and the final state of \<open>n\<close> successive calls of \<^verbatim>\<open>Stop\<close>.\<close>

fun Stop_calls :: "nat \<Rightarrow> FirecrackerProcessManager \<Rightarrow> outcome list \<times> FirecrackerProcessManager" where
  "Stop_calls 0 f = ([], f)"
| "Stop_calls (Suc n) f =
     (fst (Stop f) # fst (Stop_calls n (snd (Stop f))), snd (Stop_calls n (snd (Stop f))))"

section \<open>The fill loop of Start\<close>

text \<open>
  What one iteration of the loop gets from outside the process manager: whether the root
  context is done, and the results of \<^verbatim>\<open>uuid.NewRandom\<close>, \<^verbatim>\<open>CreateCredentials\<close>,
  \<^verbatim>\<open>createAndStartVM\<close>, \<^verbatim>\<open>workloadKey.Seed\<close> and \<^verbatim>\<open>setMetadata\<close> (\<open>None\<close> or
  \<open>False\<close> for a non-nil error).
\<close>

record fill_input =
  ctx_done :: bool
  uuid_result :: "string option"
  credentials_ok :: bool
  vm_result :: "runningFirecracker option"
  seed_ok :: bool
  metadata_ok :: bool

datatype loop_ctl = Continue | Return | SendBlocked | SendPanicked

definition log_effect :: "level \<Rightarrow> string \<Rightarrow> FirecrackerProcessManager \<Rightarrow> FirecrackerProcessManager" where
  "log_effect l m f = f\<lparr>effects := effects f @ [Log l m]\<rparr>"

text \<open>
  One pass through the body of \<^verbatim>\<open>for !f.stopping() { select { ... } }\<close>. Every
  \<^verbatim>\<open>continue\<close> is \<open>Continue\<close>; leaving the loop is \<open>Return\<close>. A VM made by
  \<^verbatim>\<open>createAndStartVM\<close> is allocated at \<open>next_vm\<close>.
\<close>

definition fill_iteration :: "fill_input \<Rightarrow> FirecrackerProcessManager \<Rightarrow> loop_ctl \<times> FirecrackerProcessManager" where
  "fill_iteration i f =
     (if stopping f then (Return, f)
      else if ctx_done i then (Return, f)
      else if int (length (buf (poolVMs f))) = MachinePoolSize f then (Continue, f)
      else case uuid_result i of
             None \<Rightarrow> (Continue, log_effect Error ''Failed to generate uuid'' f)
           | Some vmmID' \<Rightarrow>
               (if \<not> credentials_ok i then (Continue, log_effect Error ''Failed to create workload user'' f)
                else case vm_result i of
                       None \<Rightarrow> (Continue, log_effect Warn ''Failed to create VMM for warming pool.'' f)
                     | Some v \<Rightarrow>
                         (let vm = next_vm f;
                              f1 = f\<lparr>vms := (vms f)(vm := v), next_vm := Suc vm\<rparr>
                          in if \<not> seed_ok i
                             then (Continue, log_effect Error ''Failed to resolve seed from workload key'' f1)
                             else if \<not> metadata_ok i
                             then (Continue, log_effect Warn ''Failed to set metadata on VM for warming pool.'' f1)
                             else
                               (let f2 = f1\<lparr>allVMs := AList.update (vmmID v) vm (allVMs f1),
                                            stopMutex := vmmID v # removeAll (vmmID v) (stopMutex f1),
                                            telemetry := Add VmCounter 1 [] (telemetry f1),
                                            effects := effects f1 @ [OnProcessStarted (vmmID v),
                                                                     Log Debug ''Adding new VM to warm pool'']\<rparr>
                                in case chan_send vm (poolVMs f2) of
                                     SendOk ch \<Rightarrow> (Continue, f2\<lparr>poolVMs := ch\<rparr>)
                                   | SendBlocks \<Rightarrow> (SendBlocked, f2)
                                   | SendPanics \<Rightarrow> (SendPanicked, f2)))))"

text \<open>
  The loop, run for as many iterations as there are inputs; \<open>Continue\<close> as a result says
  that the loop is still running when the inputs are used up.
\<close>

fun Start_loop :: "fill_input list \<Rightarrow> FirecrackerProcessManager \<Rightarrow> loop_ctl \<times> FirecrackerProcessManager" where
  "Start_loop [] f = (Continue, f)"
| "Start_loop (i # is) f =
     (case fill_iteration i f of
        (Continue, f1) \<Rightarrow> Start_loop is f1
      | (c, f1) \<Rightarrow> (c, f1))"

text \<open>
  \<^verbatim>\<open>Start\<close>: the network reset unless \<^verbatim>\<open>PreserveNetwork\<close> (\<open>reset_ok\<close> says whether
  \<^verbatim>\<open>resetCNI\<close> succeeds; its failure is only logged), then the loop. The deferred
  \<^verbatim>\<open>recover\<close> turns a panic of the loop into a log line and a return.
\<close>

definition Start :: "bool \<Rightarrow> fill_input list \<Rightarrow> FirecrackerProcessManager \<Rightarrow> loop_ctl \<times> FirecrackerProcessManager" where
  "Start reset_ok inputs f =
     (let f1 = log_effect Debug ''Firecracker VM process manager starting'' f;
          f2 = (if \<not> PreserveNetwork f1
                then (let g = f1\<lparr>effects := effects f1 @ [ResetCNI]\<rparr>
                      in if reset_ok then g else log_effect Warn ''Failed to reset network.'' g)
                else f1)
      in case Start_loop inputs f2 of
           (SendPanicked, f3) \<Rightarrow>
             (Return, log_effect Debug ''firecracker process manager recovered from failure'' f3)
         | (c, f3) \<Rightarrow> (c, f3))"

section \<open>Sequences of operations\<close>

datatype op =
  OpFill fill_input
  | OpPrepare nat string "req_ref option"
  | OpStopProcess string
  | OpStop
  | OpEnterLameDuck

fun apply_op :: "op \<Rightarrow> FirecrackerProcessManager \<Rightarrow> FirecrackerProcessManager" where
  "apply_op (OpFill i) f = snd (fill_iteration i f)"
| "apply_op (OpPrepare now w dr) f = snd (PrepareWorkload now w dr f)"
| "apply_op (OpStopProcess w) f = snd (StopProcess w f)"
| "apply_op OpStop f = snd (Stop f)"
| "apply_op OpEnterLameDuck f = snd (EnterLameDuck f)"

fun run_ops :: "op list \<Rightarrow> FirecrackerProcessManager \<Rightarrow> FirecrackerProcessManager" where
  "run_ops [] f = f"
| "run_ops (x # xs) f = run_ops xs (apply_op x f)"

section \<open>The agent client\<close>

text \<open>
  The model follows \<^verbatim>\<open>internal/agent-api/client.go\<close>. The client records what it does
  (log lines, the reply on the bus, the store to \<^verbatim>\<open>handshakeReceived\<close>, the callbacks)
  in \<open>trace\<close>, in the order in which it does it.
\<close>

record HandshakeRequest =
  ID :: "string option"
  Message :: "string option"

record DeployResponse =
  Accepted :: bool
  ResponseMessage :: "string option"

datatype action =
  LogMsg level string
  | Respond bool
  | StoreHandshakeReceived
  | HandshakeSucceeded string
  | HandshakeTimedOut string

record AgentClient =
  agentID :: string
  handshakeReceived :: bool
  workloadStartedAt :: nat
  trace :: "action list"

definition NewAgentClient :: AgentClient where
  "NewAgentClient = \<lparr>agentID = [], handshakeReceived = False, workloadStartedAt = 0, trace = []\<rparr>"

text \<open>\<^verbatim>\<open>Start\<close> of the client with its three subscriptions succeeding.\<close>

definition AgentClient_Start :: "string \<Rightarrow> AgentClient \<Rightarrow> AgentClient" where
  "AgentClient_Start aid a = a\<lparr>agentID := aid, trace := trace a @ [LogMsg Info ''Agent client starting'']\<rparr>"

text \<open>
  What the handshake handler gets from outside for one message: the error of
  \<^verbatim>\<open>json.Unmarshal(msg.Data, &req)\<close>, the pointer \<^verbatim>\<open>req\<close> it leaves (\<open>None\<close> is nil)
  and whether \<^verbatim>\<open>msg.Respond\<close> succeeds.
\<close>

record delivery =
  unmarshal_err :: bool
  unmarshal_req :: "HandshakeRequest option"
  respond_ok :: bool

text \<open>
  \<^verbatim>\<open>*req.ID\<close> and \<^verbatim>\<open>*req.Message\<close>, the arguments of both log calls: \<open>None\<close> is
  the nil-pointer panic.
\<close>

definition deref_fields :: "HandshakeRequest option \<Rightarrow> (string \<times> string) option" where
  "deref_fields rq =
     (case rq of
        None \<Rightarrow> None
      | Some q \<Rightarrow> (case ID q of
                     None \<Rightarrow> None
                   | Some i \<Rightarrow> (case Message q of None \<Rightarrow> None | Some m \<Rightarrow> Some (i, m))))"

datatype reply_result = Panicked | Returns | Proceeds string

definition add_action :: "action list \<Rightarrow> AgentClient \<Rightarrow> AgentClient" where
  "add_action xs a = a\<lparr>trace := trace a @ xs\<rparr>"

text \<open>\<^verbatim>\<open>handleHandshake\<close> up to and including the check of the error of \<^verbatim>\<open>msg.Respond\<close>.\<close>

definition handshake_reply :: "delivery \<Rightarrow> AgentClient \<Rightarrow> reply_result \<times> AgentClient" where
  "handshake_reply d a =
     (if unmarshal_err d then
        (case deref_fields (unmarshal_req d) of
           None \<Rightarrow> (Panicked, a)
         | Some (i, m) \<Rightarrow> (Returns, add_action [LogMsg Error ''Failed to handle agent handshake''] a))
      else
        (case deref_fields (unmarshal_req d) of
           None \<Rightarrow> (Panicked, a)
         | Some (i, m) \<Rightarrow>
             (let a1 = add_action [LogMsg Info ''Received agent handshake''] a
              in if respond_ok d then (Proceeds i, add_action [Respond True] a1)
                 else (Returns, add_action [Respond False, LogMsg Error ''Failed to reply to agent handshake''] a1))))"

definition store_received :: "AgentClient \<Rightarrow> AgentClient" where
  "store_received a = add_action [StoreHandshakeReceived] (a\<lparr>handshakeReceived := True\<rparr>)"

definition call_succeeded :: "string \<Rightarrow> AgentClient \<Rightarrow> AgentClient" where
  "call_succeeded i a = add_action [HandshakeSucceeded i] a"

text \<open>The whole handler; \<open>True\<close> in the first component says that it panicked.\<close>

definition handleHandshake :: "delivery \<Rightarrow> AgentClient \<Rightarrow> bool \<times> AgentClient" where
  "handleHandshake d a =
     (case handshake_reply d a of
        (Panicked, a1) \<Rightarrow> (True, a1)
      | (Returns, a1) \<Rightarrow> (False, a1)
      | (Proceeds i, a1) \<Rightarrow> (False, call_succeeded i (store_received a1)))"

text \<open>\<^verbatim>\<open>awaitHandshake\<close> once the timer has fired.\<close>

definition awaitHandshake :: "string \<Rightarrow> AgentClient \<Rightarrow> AgentClient" where
  "awaitHandshake aid a =
     (if \<not> handshakeReceived a then add_action [HandshakeTimedOut aid] a else a)"

text \<open>
  \<^verbatim>\<open>DeployWorkload\<close>. From outside: whether \<^verbatim>\<open>json.Marshal\<close> succeeds, and what
  \<^verbatim>\<open>nc.Request\<close> gives: an error that is \<^verbatim>\<open>os.ErrDeadlineExceeded\<close>, another error,
  or a reply, which \<^verbatim>\<open>json.Unmarshal\<close> decodes (\<open>Some\<close>) or not (\<open>None\<close>).
\<close>

datatype request_result = DeadlineExceeded | RequestFailed string | Reply "DeployResponse option"

datatype deploy_error =
  MarshalFailed
  | TimedOutWaiting
  | SubmitFailed string
  | UnmarshalFailed
  | RejectedByAgent string

definition DeployWorkload ::
  "bool \<Rightarrow> request_result \<Rightarrow> nat \<Rightarrow> AgentClient
   \<Rightarrow> (DeployResponse option \<times> deploy_error option) \<times> AgentClient" where
  "DeployWorkload marshal_ok res now a =
     (if \<not> marshal_ok then ((None, Some MarshalFailed), a)
      else
        (let a1 = add_action [LogMsg Debug ''NATS internal connection status''] a
         in case res of
              DeadlineExceeded \<Rightarrow> ((None, Some TimedOutWaiting), a1)
            | RequestFailed e \<Rightarrow> ((None, Some (SubmitFailed e)), a1)
            | Reply None \<Rightarrow>
                ((None, Some UnmarshalFailed),
                 add_action [LogMsg Error ''Failed to deserialize deployment response''] a1)
            | Reply (Some r) \<Rightarrow> ((Some r, None), a1\<lparr>workloadStartedAt := now\<rparr>)))"

section \<open>The watchdog and the handler as two goroutines\<close>

text \<open>
  \<^verbatim>\<open>awaitHandshake\<close> runs in its own goroutine (\<^verbatim>\<open>go a.awaitHandshake(agentID)\<close>) and
  the handler in the goroutine of its subscription, one message after the other. The
  atomic steps: the timer fires and the watchdog loads the flag; the watchdog acts on the
  value it loaded; the handler runs up to its reply; the handler stores the flag; the
  handler calls \<^verbatim>\<open>handshakeSucceeded\<close>. A panic of the handler ends the process. A step
  that its goroutine is not at does nothing.
\<close>

datatype wd_state = WdSleeping | WdLoaded bool | WdDone

datatype hs_state = HsIdle | HsReplied string | HsStored string

record node =
  client :: AgentClient
  wd :: wd_state
  hs :: hs_state
  crashed :: bool

datatype step = TimerExpires | WdCall | Deliver delivery | HsStore | HsCall

definition start_node :: "string \<Rightarrow> node" where
  "start_node aid =
     \<lparr>client = AgentClient_Start aid NewAgentClient, wd = WdSleeping, hs = HsIdle, crashed = False\<rparr>"

fun do_step :: "step \<Rightarrow> node \<Rightarrow> node" where
  "do_step TimerExpires n =
     (if crashed n then n
      else case wd n of
             WdSleeping \<Rightarrow> n\<lparr>wd := WdLoaded (handshakeReceived (client n))\<rparr>
           | _ \<Rightarrow> n)"
| "do_step WdCall n =
     (if crashed n then n
      else case wd n of
             WdLoaded b \<Rightarrow>
               n\<lparr>wd := WdDone,
                  client := (if \<not> b then add_action [HandshakeTimedOut (agentID (client n))] (client n)
                             else client n)\<rparr>
           | _ \<Rightarrow> n)"
| "do_step (Deliver d) n =
     (if crashed n then n
      else case hs n of
             HsIdle \<Rightarrow>
               (case handshake_reply d (client n) of
                  (Panicked, a) \<Rightarrow> n\<lparr>client := a, crashed := True\<rparr>
                | (Returns, a) \<Rightarrow> n\<lparr>client := a\<rparr>
                | (Proceeds i, a) \<Rightarrow> n\<lparr>client := a, hs := HsReplied i\<rparr>)
           | _ \<Rightarrow> n)"
| "do_step HsStore n =
     (if crashed n then n
      else case hs n of
             HsReplied i \<Rightarrow> n\<lparr>client := store_received (client n), hs := HsStored i\<rparr>
           | _ \<Rightarrow> n)"
| "do_step HsCall n =
     (if crashed n then n
      else case hs n of
             HsStored i \<Rightarrow> n\<lparr>client := call_succeeded i (client n), hs := HsIdle\<rparr>
           | _ \<Rightarrow> n)"

fun run :: "step list \<Rightarrow> node \<Rightarrow> node" where
  "run [] n = n"
| "run (x # xs) n = run xs (do_step x n)"

fun is_timeout :: "action \<Rightarrow> bool" where
  "is_timeout (HandshakeTimedOut i) = True"
| "is_timeout x = False"

fun is_success :: "action \<Rightarrow> bool" where
  "is_success (HandshakeSucceeded i) = True"
| "is_success x = False"

text \<open>How often \<^verbatim>\<open>handshakeTimedOut\<close> has been called, and whether \<^verbatim>\<open>handshakeSucceeded\<close> has.\<close>

definition timeouts :: "node \<Rightarrow> nat" where
  "timeouts n = length (filter is_timeout (trace (client n)))"

definition succeeded :: "node \<Rightarrow> bool" where
  "succeeded n = list_ex is_success (trace (client n))"

section \<open>The earlier machine manager\<close>

text \<open>
  The repository also holds the earlier \<^verbatim>\<open>MachineManager\<close> (package \<^verbatim>\<open>nexnode\<close>) with
  its own pool loop \<^verbatim>\<open>fillPool\<close>, \<^verbatim>\<open>StopMachine\<close>, \<^verbatim>\<open>TakeFromPool\<close> and
  \<^verbatim>\<open>DispatchWork\<close>. Its VM record has other fields; \<open>'r\<close> is the type of the run request.
\<close>

record WorkResponse =
  WorkAccepted :: bool
  WorkMessage :: "string option"

record 'r machine =
  machineID :: string
  machineWorkloadStarted :: nat
  machineNamespace :: string
  workloadSpecification :: "'r option"

datatype work_result = WorkDeadlineExceeded | WorkRequestFailed string | WorkReply "WorkResponse option"

datatype dispatch_outcome = DispatchReturned "deploy_error option" | DispatchPanic

definition DispatchWork ::
  "work_result \<Rightarrow> nat \<Rightarrow> string \<Rightarrow> 'r \<Rightarrow> 'r machine \<Rightarrow> dispatch_outcome \<times> 'r machine" where
  "DispatchWork res now ns request vm =
     (case res of
        WorkDeadlineExceeded \<Rightarrow> (DispatchReturned (Some TimedOutWaiting), vm)
      | WorkRequestFailed e \<Rightarrow> (DispatchReturned (Some (SubmitFailed e)), vm)
      | WorkReply None \<Rightarrow> (DispatchReturned (Some UnmarshalFailed), vm)
      | WorkReply (Some r) \<Rightarrow>
          (if \<not> WorkAccepted r then
             (case WorkMessage r of
                None \<Rightarrow> (DispatchPanic, vm)
              | Some m \<Rightarrow> (DispatchReturned (Some (RejectedByAgent m)), vm))
           else (DispatchReturned None,
                 vm\<lparr>machineWorkloadStarted := now, machineNamespace := ns,
                    workloadSpecification := Some request\<rparr>)))"

datatype mm_effect =
  MmLog level string
  | PublishMachineStopped vm_ref
  | ShutDown vm_ref
  | AwaitHandshake string

record 'r MachineManager =
  rootDone :: bool
  allVms :: "(string \<times> vm_ref) list"
  warmVms :: "vm_ref chan"
  machines :: "vm_ref \<Rightarrow> 'r machine"
  next_machine :: vm_ref
  mm_effects :: "mm_effect list"

text \<open>
  \<^verbatim>\<open>NewMachineManager\<close>: \<^verbatim>\<open>config.Validate()\<close> wants \<^verbatim>\<open>MachinePoolSize >= 1\<close> (and its
  file and network checks, \<open>others_valid\<close>); the channel has capacity
  \<^verbatim>\<open>MachinePoolSize-1\<close>. \<open>None\<close> is the error return.
\<close>

definition NewMachineManager :: "int \<Rightarrow> bool \<Rightarrow> (vm_ref \<Rightarrow> 'r machine) \<Rightarrow> 'r MachineManager option" where
  "NewMachineManager poolSize others_valid ms =
     (if poolSize < 1 \<or> \<not> others_valid then None
      else Some \<lparr>rootDone = False, allVms = [],
                 warmVms = \<lparr>buf = [], cap = nat (poolSize - 1), closed = False\<rparr>,
                 machines = ms, next_machine = 0, mm_effects = []\<rparr>)"

datatype mm_error = NoSuchWorkload

definition StopMachine :: "string \<Rightarrow> 'r MachineManager \<Rightarrow> mm_error option \<times> 'r MachineManager" where
  "StopMachine vmId m =
     (case map_of (allVms m) vmId of
        None \<Rightarrow> (Some NoSuchWorkload, m)
      | Some vm \<Rightarrow>
          (None, m\<lparr>mm_effects := mm_effects m @ [PublishMachineStopped vm, ShutDown vm],
                   allVms := AList.delete vmId (allVms m)\<rparr>))"

definition TakeFromPool :: "'r MachineManager \<Rightarrow> vm_ref recv_result" where
  "TakeFromPool m = chan_recv (warmVms m)"

datatype fill_ctl = FillContinue | FillReturn | FillPanic | FillBlocked

text \<open>
  One pass through the body of \<^verbatim>\<open>fillPool\<close>; the argument is the result of
  \<^verbatim>\<open>createAndStartVM\<close>. The VM is entered into \<^verbatim>\<open>allVms\<close> only after the send.
\<close>

definition fillPool_iteration :: "'r machine option \<Rightarrow> 'r MachineManager \<Rightarrow> fill_ctl \<times> 'r MachineManager" where
  "fillPool_iteration created m =
     (if rootDone m then (FillReturn, m)
      else case created of
             None \<Rightarrow>
               (FillPanic,
                m\<lparr>mm_effects := mm_effects m @ [MmLog Error ''Failed to create VMM for warming pool. Aborting.'']\<rparr>)
           | Some v \<Rightarrow>
               (let vm = next_machine m;
                    m1 = m\<lparr>machines := (machines m)(vm := v), next_machine := Suc vm,
                           mm_effects := mm_effects m @ [AwaitHandshake (machineID v),
                                                         MmLog Info ''Adding new VM to warm pool'']\<rparr>
                in case chan_send vm (warmVms m1) of
                     SendOk ch \<Rightarrow>
                       (FillContinue, m1\<lparr>warmVms := ch, allVms := AList.update (machineID v) vm (allVms m1)\<rparr>)
                   | SendBlocks \<Rightarrow> (FillBlocked, m1)
                   | SendPanics \<Rightarrow> (FillPanic, m1)))"

section \<open>Concrete states\<close>

definition req0 :: AgentWorkloadInfo where
  "req0 = \<lparr>WorkloadName = Some ''echo'', Namespace = Some ''default'', WorkloadType = ''elf'',
           TotalBytes = 1024, Essential = Some True\<rparr>"

definition vm0 :: runningFirecracker where
  "vm0 = \<lparr>vmmID = ''vm-1'', deployRequest = None, namespace = [], workloadStarted = 0,
          VcpuCount = 1, MemSizeMib = 256\<rparr>"

text \<open>A manager of pool size 1 whose only VM, \<open>vm-1\<close> at address 0, is warm.\<close>

definition pm_warm :: FirecrackerProcessManager where
  "pm_warm = \<lparr>closing = 0, MachinePoolSize = 1, PreserveNetwork = True, stopMutex = [''vm-1''],
              telemetry = (\<lambda>k. 0), allVMs = [(''vm-1'', 0)],
              poolVMs = \<lparr>buf = [0], cap = 1, closed = False\<rparr>,
              deployRequests = [], vms = (\<lambda>p. vm0), reqs = (\<lambda>p. req0), next_vm = 1, effects = []\<rparr>"

text \<open>A manager of pool size 1 just made, with nothing in it.\<close>

definition pm_new :: FirecrackerProcessManager where
  "pm_new = \<lparr>closing = 0, MachinePoolSize = 1, PreserveNetwork = True, stopMutex = [],
             telemetry = (\<lambda>k. 0), allVMs = [],
             poolVMs = \<lparr>buf = [], cap = 1, closed = False\<rparr>,
             deployRequests = [], vms = (\<lambda>p. vm0), reqs = (\<lambda>p. req0), next_vm = 0, effects = []\<rparr>"

text \<open>The manager after \<open>vm-1\<close> has been given the workload \<open>req0\<close> at address 0.\<close>

definition pm_assigned :: FirecrackerProcessManager where
  "pm_assigned = snd (PrepareWorkload 7 ''w-1'' (Some 0) pm_warm)"

definition fill_ok :: fill_input where
  "fill_ok = \<lparr>ctx_done = False, uuid_result = Some ''vm-2'', credentials_ok = True,
              vm_result = Some (vm0\<lparr>vmmID := ''vm-2''\<rparr>), seed_ok = True, metadata_ok = True\<rparr>"

definition fill_create_fails :: fill_input where
  "fill_create_fails = fill_ok\<lparr>vm_result := None\<rparr>"

definition handshake_ok :: delivery where
  "handshake_ok = \<lparr>unmarshal_err = False,
                   unmarshal_req = Some \<lparr>ID = Some ''vm-1'', Message = Some ''hello''\<rparr>,
                   respond_ok = True\<rparr>"

text \<open>A payload that is not JSON: \<^verbatim>\<open>json.Unmarshal\<close> returns its syntax error and leaves \<^verbatim>\<open>req\<close> nil.\<close>

definition handshake_garbage :: delivery where
  "handshake_garbage = \<lparr>unmarshal_err = True, unmarshal_req = None, respond_ok = True\<rparr>"

definition rejected :: DeployResponse where
  "rejected = \<lparr>Accepted = False, ResponseMessage = Some ''bad digest''\<rparr>"

text \<open>
  An earlier machine manager of pool size 1 just made (its channel has capacity 0), for
  run requests of type \<open>unit\<close>.
\<close>

definition machine0 :: "unit machine" where
  "machine0 = \<lparr>machineID = ''m-1'', machineWorkloadStarted = 0, machineNamespace = [],
               workloadSpecification = None\<rparr>"

definition mm_new :: "unit MachineManager" where
  "mm_new = \<lparr>rootDone = False, allVms = [],
             warmVms = \<lparr>buf = [], cap = 0, closed = False\<rparr>,
             machines = (\<lambda>p. machine0), next_machine = 0, mm_effects = []\<rparr>"

section \<open>Invariants and trace predicates\<close>

text \<open>The bound on the channel: no more VMs than its capacity, and a capacity of \<open>n\<close>.\<close>

definition pool_ok :: "int \<Rightarrow> FirecrackerProcessManager \<Rightarrow> bool" where
  "pool_ok n f = (length (buf (poolVMs f)) \<le> cap (poolVMs f) \<and> int (cap (poolVMs f)) = n)"

text \<open>A run: two iterations of the fill loop, a workload, a third iteration, a stop.\<close>

definition ops0 :: "op list" where
  "ops0 = [OpFill fill_ok, OpFill (fill_ok\<lparr>uuid_result := Some ''vm-3''\<rparr>),
           OpPrepare 7 ''w-1'' (Some 0), OpFill fill_ok, OpStopProcess ''vm-2'']"

text \<open>What every step of the watchdog and the handler keeps.\<close>

definition wd_inv :: "node \<Rightarrow> bool" where
  "wd_inv n =
     ((if wd n = WdDone then timeouts n \<le> 1 else timeouts n = 0)
      \<and> (if succeeded n then handshakeReceived (client n) else True)
      \<and> (if wd n = WdLoaded True then handshakeReceived (client n) else True)
      \<and> (case hs n of HsStored i \<Rightarrow> handshakeReceived (client n) | _ \<Rightarrow> True))"

text \<open>
  \<open>preceded x y tr\<close>: in the trace \<open>tr\<close> no \<open>y\<close> comes before the first \<open>x\<close>.
\<close>

fun preceded :: "action \<Rightarrow> action \<Rightarrow> action list \<Rightarrow> bool" where
  "preceded x y [] = True"
| "preceded x y (z # zs) = (if z = x then True else z \<noteq> y \<and> preceded x y zs)"

section \<open>Counters across PrepareWorkload and StopProcess\<close>

lemma PrepareWorkload_success:
  assumes "buf (poolVMs f) = vm # rest" and "Namespace (reqs f r) = Some ns"
  shows "PrepareWorkload now w (Some r) f =
          (Returned None,
           f\<lparr>poolVMs := (poolVMs f)\<lparr>buf := rest\<rparr>,
              vms := (vms f)(vm := (vms f vm)\<lparr>deployRequest := Some r, namespace := ns, workloadStarted := now\<rparr>),
              deployRequests := AList.update (vmmID (vms f vm)) r (deployRequests f),
              telemetry := Add AllocatedMemoryCounter (MemSizeMib (vms f vm)) [(''namespace'', ns)]
                            (Add AllocatedMemoryCounter (MemSizeMib (vms f vm)) []
                              (Add AllocatedVCPUCounter (VcpuCount (vms f vm)) [(''namespace'', ns)]
                                (Add AllocatedVCPUCounter (VcpuCount (vms f vm)) [] (telemetry f))))\<rparr>)"
  using assms by (simp add: PrepareWorkload_def chan_recv_def Let_def)

text \<open>A call that returns nil has taken a VM from the channel and was given a request with a namespace.\<close>

lemma PrepareWorkload_Returned_None:
  assumes "PrepareWorkload now w dr f = (Returned None, f1)"
  shows "\<exists>vm rest r ns. buf (poolVMs f) = vm # rest \<and> dr = Some r \<and> Namespace (reqs f r) = Some ns"
  using assms
  by (auto simp: PrepareWorkload_def chan_recv_def Let_def split: list.splits if_splits option.splits)

lemma pm_warm_prepare:
  "PrepareWorkload 7 ''w-1'' (Some 0) pm_warm = (Returned None, pm_assigned)"
  by (simp add: pm_assigned_def PrepareWorkload_def pm_warm_def chan_recv_def req0_def Let_def)

text \<open>
  Claim C1, as the code has it. Let \<^verbatim>\<open>PrepareWorkload\<close> return nil, having taken the VM
  \<open>vm\<close> from the channel for the request \<open>r\<close> of namespace \<open>ns\<close>, and let \<open>vm\<close> be
  registered in \<^verbatim>\<open>allVMs\<close> and \<^verbatim>\<open>stopMutex\<close> under its id. Then the vCPU and memory
  counters, in the series without attributes and in the series of the namespace, have
  grown by exactly the VM's vCPU count and memory size, and the workload and
  deployed-bytes counters are unchanged. \<^verbatim>\<open>StopProcess\<close> of that id then returns nil
  and takes the vCPU and memory counters back to their values before the pair, all
  series; it takes 1 from the two workload series of the request's type and the request's
  total bytes from the two deployed-bytes series.
\<close>

theorem PrepareWorkload_StopProcess_counters:
  assumes ok: "PrepareWorkload now w dr f = (Returned None, f1)"
      and hd: "buf (poolVMs f) = vm # rest"
      and rq: "dr = Some r"
      and ns: "Namespace (reqs f r) = Some ns"
      and reg: "map_of (allVMs f) (vmmID (vms f vm)) = Some vm"
      and mu: "vmmID (vms f vm) \<in> set (stopMutex f)"
  shows "telemetry f1 (AllocatedVCPUCounter, as) =
           telemetry f (AllocatedVCPUCounter, as)
             + (if as = [] \<or> as = [(''namespace'', ns)] then VcpuCount (vms f vm) else 0)
       \<and> telemetry f1 (AllocatedMemoryCounter, as) =
           telemetry f (AllocatedMemoryCounter, as)
             + (if as = [] \<or> as = [(''namespace'', ns)] then MemSizeMib (vms f vm) else 0)
       \<and> telemetry f1 (WorkloadCounter, as) = telemetry f (WorkloadCounter, as)
       \<and> telemetry f1 (DeployedByteCounter, as) = telemetry f (DeployedByteCounter, as)
       \<and> fst (StopProcess (vmmID (vms f vm)) f1) = Returned None
       \<and> telemetry (snd (StopProcess (vmmID (vms f vm)) f1)) (AllocatedVCPUCounter, as) =
           telemetry f (AllocatedVCPUCounter, as)
       \<and> telemetry (snd (StopProcess (vmmID (vms f vm)) f1)) (AllocatedMemoryCounter, as) =
           telemetry f (AllocatedMemoryCounter, as)
       \<and> telemetry (snd (StopProcess (vmmID (vms f vm)) f1)) (WorkloadCounter, as) =
           telemetry f (WorkloadCounter, as)
             - (if as = [(''workload_type'', WorkloadType (reqs f r))]
                   \<or> as = [(''workload_type'', WorkloadType (reqs f r)), (''namespace'', ns)]
                then 1 else 0)
       \<and> telemetry (snd (StopProcess (vmmID (vms f vm)) f1)) (DeployedByteCounter, as) =
           telemetry f (DeployedByteCounter, as)
             - (if as = [] \<or> as = [(''namespace'', ns)] then TotalBytes (reqs f r) else 0)"
proof -
  have f1: "f1 = f\<lparr>poolVMs := (poolVMs f)\<lparr>buf := rest\<rparr>,
              vms := (vms f)(vm := (vms f vm)\<lparr>deployRequest := Some r, namespace := ns, workloadStarted := now\<rparr>),
              deployRequests := AList.update (vmmID (vms f vm)) r (deployRequests f),
              telemetry := Add AllocatedMemoryCounter (MemSizeMib (vms f vm)) [(''namespace'', ns)]
                            (Add AllocatedMemoryCounter (MemSizeMib (vms f vm)) []
                              (Add AllocatedVCPUCounter (VcpuCount (vms f vm)) [(''namespace'', ns)]
                                (Add AllocatedVCPUCounter (VcpuCount (vms f vm)) [] (telemetry f))))\<rparr>"
    using ok PrepareWorkload_success [OF hd ns, of now w] by (simp add: rq)
  show ?thesis
    using reg mu by (simp add: f1 StopProcess_def Let_def Add_def)
qed

theorem PrepareWorkload_StopProcess_counters_witness:
  "PrepareWorkload 7 ''w-1'' (Some 0) pm_warm = (Returned None, pm_assigned)
   \<and> buf (poolVMs pm_warm) = [0]
   \<and> Namespace (reqs pm_warm 0) = Some ''default''
   \<and> map_of (allVMs pm_warm) (vmmID (vms pm_warm 0)) = Some 0
   \<and> vmmID (vms pm_warm 0) \<in> set (stopMutex pm_warm)
   \<and> telemetry pm_assigned (AllocatedVCPUCounter, []) = 1
   \<and> telemetry pm_assigned (AllocatedMemoryCounter, [(''namespace'', ''default'')]) = 256
   \<and> fst (StopProcess ''vm-1'' pm_assigned) = Returned None
   \<and> telemetry (snd (StopProcess ''vm-1'' pm_assigned)) (AllocatedVCPUCounter, []) = 0
   \<and> telemetry (snd (StopProcess ''vm-1'' pm_assigned)) (AllocatedMemoryCounter, [(''namespace'', ''default'')]) = 0"
proof -
  have a: "PrepareWorkload 7 ''w-1'' (Some 0) pm_warm = (Returned None, pm_assigned)"
    by (rule pm_warm_prepare)
  have b: "buf (poolVMs pm_warm) = 0 # []" by (simp add: pm_warm_def)
  have c: "Namespace (reqs pm_warm 0) = Some ''default''" by (simp add: pm_warm_def req0_def)
  have d: "map_of (allVMs pm_warm) (vmmID (vms pm_warm 0)) = Some 0" by (simp add: pm_warm_def vm0_def)
  have e: "vmmID (vms pm_warm 0) \<in> set (stopMutex pm_warm)" by (simp add: pm_warm_def vm0_def)
  have i: "vmmID (vms pm_warm 0) = ''vm-1''" by (simp add: pm_warm_def vm0_def)
  have v: "VcpuCount (vms pm_warm 0) = 1" "MemSizeMib (vms pm_warm 0) = 256"
          "telemetry pm_warm = (\<lambda>k. 0)"
    by (simp_all add: pm_warm_def vm0_def)
  from PrepareWorkload_StopProcess_counters [OF a b refl c d e, of "[]"]
       PrepareWorkload_StopProcess_counters [OF a b refl c d e, of "[(''namespace'', ''default'')]"]
  show ?thesis using a b c d e by (simp add: i v)
qed

text \<open>
  C1 as stated fails: \<^verbatim>\<open>PrepareWorkload\<close> leaves the deployed-bytes and workload counters
  as they were, and the \<^verbatim>\<open>StopProcess\<close> that follows takes 1024 bytes and one workload
  from them, so the pair does not leave them where they were.
\<close>

theorem PrepareWorkload_StopProcess_drift_counterexample:
  "fst (PrepareWorkload 7 ''w-1'' (Some 0) pm_warm) = Returned None
   \<and> fst (StopProcess ''vm-1'' (snd (PrepareWorkload 7 ''w-1'' (Some 0) pm_warm))) = Returned None
   \<and> TotalBytes (reqs pm_warm 0) = 1024
   \<and> telemetry (snd (PrepareWorkload 7 ''w-1'' (Some 0) pm_warm)) (DeployedByteCounter, [])
       = telemetry pm_warm (DeployedByteCounter, [])
   \<and> telemetry (snd (PrepareWorkload 7 ''w-1'' (Some 0) pm_warm)) (WorkloadCounter, [(''workload_type'', ''elf'')])
       = telemetry pm_warm (WorkloadCounter, [(''workload_type'', ''elf'')])
   \<and> telemetry (snd (StopProcess ''vm-1'' (snd (PrepareWorkload 7 ''w-1'' (Some 0) pm_warm)))) (DeployedByteCounter, [])
       = telemetry pm_warm (DeployedByteCounter, []) - 1024
   \<and> telemetry (snd (StopProcess ''vm-1'' (snd (PrepareWorkload 7 ''w-1'' (Some 0) pm_warm)))) (DeployedByteCounter, [])
       \<noteq> telemetry pm_warm (DeployedByteCounter, [])
   \<and> telemetry (snd (StopProcess ''vm-1'' (snd (PrepareWorkload 7 ''w-1'' (Some 0) pm_warm)))) (WorkloadCounter, [(''workload_type'', ''elf'')])
       \<noteq> telemetry pm_warm (WorkloadCounter, [(''workload_type'', ''elf'')])"
  by (simp add: PrepareWorkload_def StopProcess_def pm_warm_def chan_recv_def req0_def vm0_def Let_def Add_def)

section \<open>StopProcess of an unknown id\<close>

text \<open>
  Claim C8. \<^verbatim>\<open>StopProcess\<close> with an id that is not a key of \<^verbatim>\<open>allVMs\<close> returns its
  error and leaves the whole state as it was: no VM is shut down, no entry of a map is
  removed, no counter is changed.
\<close>

theorem StopProcess_unknown_no_effect:
  assumes "map_of (allVMs f) workloadID = None"
  shows "StopProcess workloadID f = (Returned (Some (FailedToStopMachine workloadID)), f)"
  using assms by (simp add: StopProcess_def)

theorem StopProcess_unknown_no_effect_witness:
  "map_of (allVMs pm_warm) ''vm-9'' = None \<and>
   StopProcess ''vm-9'' pm_warm = (Returned (Some (FailedToStopMachine ''vm-9'')), pm_warm)"
  using StopProcess_unknown_no_effect [of pm_warm "''vm-9''"] by (simp add: pm_warm_def)

text \<open>The earlier \<^verbatim>\<open>StopMachine\<close> does the same.\<close>

lemma StopMachine_unknown_no_effect:
  "map_of (allVms m) vmId = None \<Longrightarrow> StopMachine vmId m = (Some NoSuchWorkload, m)"
  by (simp add: StopMachine_def)

section \<open>A failure to create a VM in the fill loop\<close>

text \<open>
  Claim C5, as the code has it. In an iteration of the loop of \<^verbatim>\<open>Start\<close> that gets as
  far as \<^verbatim>\<open>createAndStartVM\<close> (the manager is not stopping, the context is not done, the
  pool is not full, the id and the credentials were made), an error of
  \<^verbatim>\<open>createAndStartVM\<close> appends one warning to the log and the iteration ends with
  \<^verbatim>\<open>continue\<close>: nothing else of the state changes, and the loop goes on with its next
  iteration from that state. The earlier \<^verbatim>\<open>fillPool\<close>, while its context is not done,
  appends one error to the log and panics.
\<close>

theorem fill_create_failure_continues:
  assumes "\<not> stopping f" and "\<not> ctx_done i"
      and "int (length (buf (poolVMs f))) \<noteq> MachinePoolSize f"
      and "uuid_result i = Some u" and "credentials_ok i" and "vm_result i = None"
  shows "fill_iteration i f
           = (Continue, f\<lparr>effects := effects f @ [Log Warn ''Failed to create VMM for warming pool.'']\<rparr>)
       \<and> Start_loop (i # rest) f
           = Start_loop rest (f\<lparr>effects := effects f @ [Log Warn ''Failed to create VMM for warming pool.'']\<rparr>)
       \<and> (\<not> rootDone m \<longrightarrow>
            fillPool_iteration None m
              = (FillPanic,
                 m\<lparr>mm_effects := mm_effects m
                      @ [MmLog Error ''Failed to create VMM for warming pool. Aborting.'']\<rparr>))"
  using assms by (simp add: fill_iteration_def log_effect_def fillPool_iteration_def)

theorem fill_create_failure_continues_witness:
  "\<not> stopping pm_new \<and> \<not> ctx_done fill_create_fails
   \<and> int (length (buf (poolVMs pm_new))) \<noteq> MachinePoolSize pm_new
   \<and> uuid_result fill_create_fails = Some ''vm-2'' \<and> credentials_ok fill_create_fails
   \<and> vm_result fill_create_fails = None
   \<and> fst (fill_iteration fill_create_fails pm_new) = Continue
   \<and> effects (snd (fill_iteration fill_create_fails pm_new))
       = [Log Warn ''Failed to create VMM for warming pool.'']
   \<and> Start_loop [fill_create_fails, fill_ok] pm_new
       = Start_loop [fill_ok] (pm_new\<lparr>effects := [Log Warn ''Failed to create VMM for warming pool.'']\<rparr>)
   \<and> buf (poolVMs (snd (Start_loop [fill_create_fails, fill_ok] pm_new))) = [0]
   \<and> \<not> rootDone mm_new
   \<and> fst (fillPool_iteration None mm_new) = FillPanic"
proof -
  have h: "\<not> stopping pm_new" "\<not> ctx_done fill_create_fails"
      "int (length (buf (poolVMs pm_new))) \<noteq> MachinePoolSize pm_new"
      "uuid_result fill_create_fails = Some ''vm-2''" "credentials_ok fill_create_fails"
      "vm_result fill_create_fails = None"
    by (simp_all add: stopping_def pm_new_def fill_create_fails_def fill_ok_def)
  have e: "effects pm_new = []" by (simp add: pm_new_def)
  have r: "\<not> rootDone mm_new" by (simp add: mm_new_def)
  have b: "buf (poolVMs (snd (Start_loop [fill_ok]
              (pm_new\<lparr>effects := [Log Warn ''Failed to create VMM for warming pool.'']\<rparr>)))) = [0]"
    by (simp add: fill_iteration_def stopping_def pm_new_def fill_ok_def chan_send_def Let_def vm0_def)
  note t = fill_create_failure_continues [OF h, of "[fill_ok]" mm_new]
  have t1: "fill_iteration fill_create_fails pm_new
             = (Continue, pm_new\<lparr>effects := [Log Warn ''Failed to create VMM for warming pool.'']\<rparr>)"
    using t [THEN conjunct1] e by simp
  have t2: "Start_loop [fill_create_fails, fill_ok] pm_new
       = Start_loop [fill_ok] (pm_new\<lparr>effects := [Log Warn ''Failed to create VMM for warming pool.'']\<rparr>)"
    using t [THEN conjunct2, THEN conjunct1] e by simp
  have t3: "fst (fillPool_iteration None mm_new) = FillPanic"
    using t [THEN conjunct2, THEN conjunct2] r by simp
  have c1: "fst (fill_iteration fill_create_fails pm_new) = Continue"
    and c2: "effects (snd (fill_iteration fill_create_fails pm_new))
       = [Log Warn ''Failed to create VMM for warming pool.'']"
    by (simp_all add: t1)
  have c3: "buf (poolVMs (snd (Start_loop [fill_create_fails, fill_ok] pm_new))) = [0]"
    by (simp only: t2 b)
  show ?thesis by (intro conjI h c1 c2 t2 c3 r t3)
qed

text \<open>
  C5 as stated fails for the earlier loop: in a manager made by \<^verbatim>\<open>NewMachineManager\<close>,
  \<^verbatim>\<open>fillPool\<close> answers an error of \<^verbatim>\<open>createAndStartVM\<close> with the log line
  "Failed to create VMM for warming pool. Aborting." and \<^verbatim>\<open>panic(err)\<close>; the loop does
  not go on.
\<close>

theorem fillPool_create_failure_counterexample:
  "NewMachineManager 1 True (\<lambda>p. machine0) = Some mm_new
   \<and> \<not> rootDone mm_new
   \<and> fst (fillPool_iteration None mm_new) = FillPanic
   \<and> fst (fillPool_iteration None mm_new) \<noteq> FillContinue
   \<and> mm_effects (snd (fillPool_iteration None mm_new))
       = [MmLog Error ''Failed to create VMM for warming pool. Aborting.'']"
  by (simp add: NewMachineManager_def mm_new_def fillPool_iteration_def)

section \<open>EnterLameDuck\<close>

text \<open>What the loop of \<^verbatim>\<open>EnterLameDuck\<close> leaves in the store of requests.\<close>

lemma fold_set_nonessential:
  "fold set_nonessential rs h r = (if r \<in> set rs then (h r)\<lparr>Essential := Some False\<rparr> else h r)"
  by (induction rs arbitrary: h) (auto simp: set_nonessential_def)

lemma fill_iteration_reqs:
  "fill_iteration i (f\<lparr>reqs := h\<rparr>) = (fst (fill_iteration i f), (snd (fill_iteration i f))\<lparr>reqs := h\<rparr>)"
  by (simp add: fill_iteration_def stopping_def log_effect_def Let_def
           split: option.splits send_result.splits)

text \<open>
  Claim C4, as the code has it. \<^verbatim>\<open>EnterLameDuck\<close> returns nil; afterwards every request
  stored in \<^verbatim>\<open>deployRequests\<close> has \<^verbatim>\<open>Essential\<close> pointing to false; a stored
  request is otherwise as it was, and a request that is not stored is as it was; nothing
  but the store of requests has changed, so every VM and its workload is found as before;
  and an iteration of the fill loop does after \<^verbatim>\<open>EnterLameDuck\<close> exactly what it does
  without it: the loop is not told about lame-duck mode.
\<close>

theorem EnterLameDuck_marks_and_keeps:
  "fst (EnterLameDuck f) = Returned None
   \<and> (\<forall>k r. (k, r) \<in> set (deployRequests (snd (EnterLameDuck f)))
         \<longrightarrow> Essential (reqs (snd (EnterLameDuck f)) r) = Some False)
   \<and> (\<forall>r. reqs (snd (EnterLameDuck f)) r
            = (if r \<in> snd ` set (deployRequests f)
               then (reqs f r)\<lparr>Essential := Some False\<rparr> else reqs f r))
   \<and> snd (EnterLameDuck f) = f\<lparr>reqs := reqs (snd (EnterLameDuck f))\<rparr>
   \<and> fill_iteration i (snd (EnterLameDuck f))
       = (fst (fill_iteration i f), (snd (fill_iteration i f))\<lparr>reqs := reqs (snd (EnterLameDuck f))\<rparr>)"
proof -
  have a: "snd (EnterLameDuck f) = f\<lparr>reqs := reqs (snd (EnterLameDuck f))\<rparr>"
    by (simp add: EnterLameDuck_def)
  have d: "\<forall>r. reqs (snd (EnterLameDuck f)) r
            = (if r \<in> snd ` set (deployRequests f)
               then (reqs f r)\<lparr>Essential := Some False\<rparr> else reqs f r)"
    by (simp add: EnterLameDuck_def fold_set_nonessential)
  have b: "\<forall>k r. (k, r) \<in> set (deployRequests (snd (EnterLameDuck f)))
         \<longrightarrow> Essential (reqs (snd (EnterLameDuck f)) r) = Some False"
  proof (intro allI impI)
    fix k r
    assume "(k, r) \<in> set (deployRequests (snd (EnterLameDuck f)))"
    then have "(k, r) \<in> set (deployRequests f)" by (simp add: EnterLameDuck_def)
    then have "r \<in> snd ` set (deployRequests f)" by force
    with d show "Essential (reqs (snd (EnterLameDuck f)) r) = Some False" by simp
  qed
  have c: "fill_iteration i (snd (EnterLameDuck f))
       = (fst (fill_iteration i f), (snd (fill_iteration i f))\<lparr>reqs := reqs (snd (EnterLameDuck f))\<rparr>)"
    by (subst a) (rule fill_iteration_reqs)
  have e: "fst (EnterLameDuck f) = Returned None" by (simp add: EnterLameDuck_def)
  show ?thesis by (intro conjI e b d a c)
qed

lemma pm_assigned_eq:
  "pm_assigned = pm_warm\<lparr>poolVMs := \<lparr>buf = [], cap = 1, closed = False\<rparr>,
       vms := (vms pm_warm)(0 := vm0\<lparr>deployRequest := Some 0, namespace := ''default'', workloadStarted := 7\<rparr>),
       deployRequests := [(''vm-1'', 0)],
       telemetry := Add AllocatedMemoryCounter 256 [(''namespace'', ''default'')]
                            (Add AllocatedMemoryCounter 256 []
                              (Add AllocatedVCPUCounter 1 [(''namespace'', ''default'')]
                                (Add AllocatedVCPUCounter 1 [] (\<lambda>k. 0))))\<rparr>"
  by (simp add: pm_assigned_def PrepareWorkload_def pm_warm_def chan_recv_def req0_def vm0_def Let_def)

theorem EnterLameDuck_marks_and_keeps_witness:
  "(''vm-1'', 0) \<in> set (deployRequests (snd (EnterLameDuck pm_assigned)))
   \<and> 0 \<in> snd ` set (deployRequests pm_assigned)
   \<and> 5 \<notin> snd ` set (deployRequests pm_assigned)
   \<and> reqs pm_assigned 0 = req0
   \<and> Essential req0 = Some True
   \<and> Essential (reqs (snd (EnterLameDuck pm_assigned)) 0) = Some False
   \<and> reqs (snd (EnterLameDuck pm_assigned)) 0 = req0\<lparr>Essential := Some False\<rparr>
   \<and> reqs (snd (EnterLameDuck pm_assigned)) 5 = reqs pm_assigned 5
   \<and> map_of (allVMs (snd (EnterLameDuck pm_assigned))) ''vm-1'' = Some 0
   \<and> deployRequest (vms (snd (EnterLameDuck pm_assigned)) 0) = Some 0"
proof -
  have m: "(''vm-1'', 0) \<in> set (deployRequests (snd (EnterLameDuck pm_assigned)))"
    by (simp add: EnterLameDuck_def pm_assigned_eq)
  have s: "0 \<in> snd ` set (deployRequests pm_assigned)" "5 \<notin> snd ` set (deployRequests pm_assigned)"
    by (simp_all add: pm_assigned_eq)
  have q: "reqs pm_assigned 0 = req0" "Essential req0 = Some True"
    by (simp_all add: pm_assigned_eq pm_warm_def req0_def)
  have k: "map_of (allVMs (snd (EnterLameDuck pm_assigned))) ''vm-1'' = Some 0"
          "deployRequest (vms (snd (EnterLameDuck pm_assigned)) 0) = Some 0"
    by (simp_all add: EnterLameDuck_def pm_assigned_eq pm_warm_def)
  note t = EnterLameDuck_marks_and_keeps [of pm_assigned fill_ok]
  have t1: "Essential (reqs (snd (EnterLameDuck pm_assigned)) 0) = Some False"
    using t [THEN conjunct2, THEN conjunct1] m by blast
  have fr: "\<forall>r. reqs (snd (EnterLameDuck pm_assigned)) r
            = (if r \<in> snd ` set (deployRequests pm_assigned)
               then (reqs pm_assigned r)\<lparr>Essential := Some False\<rparr> else reqs pm_assigned r)"
    using t [THEN conjunct2, THEN conjunct2, THEN conjunct1] .
  have t2: "reqs (snd (EnterLameDuck pm_assigned)) 0 = req0\<lparr>Essential := Some False\<rparr>"
    using fr [THEN spec, of 0] s(1) q(1) by simp
  have t3: "reqs (snd (EnterLameDuck pm_assigned)) 5 = reqs pm_assigned 5"
    using fr [THEN spec, of 5] s(2) by simp
  show ?thesis by (intro conjI m s q t1 t2 t3 k)
qed

text \<open>
  C4 as stated fails: after \<^verbatim>\<open>EnterLameDuck\<close>, with the pool below its size, the next
  iteration of the fill loop makes the VM \<open>vm-2\<close>, registers it and puts it on the channel.
\<close>

theorem EnterLameDuck_refill_counterexample:
  "fst (EnterLameDuck pm_assigned) = Returned None
   \<and> buf (poolVMs (snd (EnterLameDuck pm_assigned))) = []
   \<and> fst (fill_iteration fill_ok (snd (EnterLameDuck pm_assigned))) = Continue
   \<and> buf (poolVMs (snd (fill_iteration fill_ok (snd (EnterLameDuck pm_assigned))))) = [1]
   \<and> map_of (allVMs (snd (fill_iteration fill_ok (snd (EnterLameDuck pm_assigned))))) ''vm-2'' = Some 1"
  by (simp add: EnterLameDuck_def pm_assigned_eq pm_warm_def fill_iteration_def stopping_def
        fill_ok_def vm0_def chan_send_def Let_def)

section \<open>The length of the warm channel\<close>

lemma StopProcess_pool:
  "poolVMs (snd (StopProcess w f)) = poolVMs f \<and> MachinePoolSize (snd (StopProcess w f)) = MachinePoolSize f
   \<and> closing (snd (StopProcess w f)) = closing f"
  by (simp add: StopProcess_def Let_def split: option.splits)

lemma stop_all_pool:
  "poolVMs (snd (stop_all ids f)) = poolVMs f \<and> MachinePoolSize (snd (stop_all ids f)) = MachinePoolSize f
   \<and> closing (snd (stop_all ids f)) = closing f"
proof (induction ids arbitrary: f)
  case Nil
  then show ?case by simp
next
  case (Cons w ids)
  obtain r f1 where s: "StopProcess w f = (r, f1)" by (cases "StopProcess w f")
  from StopProcess_pool [of w f] s
  have k: "poolVMs f1 = poolVMs f" "MachinePoolSize f1 = MachinePoolSize f" "closing f1 = closing f" by simp_all
  show ?case
    using s k Cons.IH [of f1]
          Cons.IH [of "f1\<lparr>effects := effects f1 @ [Log Warn ''Failed to stop firecracker process'']\<rparr>"]
    by (simp split: outcome.splits option.splits)
qed

lemma pool_ok_StopProcess: "pool_ok n f \<Longrightarrow> pool_ok n (snd (StopProcess w f))"
  by (simp add: pool_ok_def StopProcess_pool)

lemma pool_ok_PrepareWorkload: "pool_ok n f \<Longrightarrow> pool_ok n (snd (PrepareWorkload now w dr f))"
  by (auto simp: pool_ok_def PrepareWorkload_def chan_recv_def Let_def
           split: list.splits option.splits)

lemma pool_ok_EnterLameDuck: "pool_ok n f \<Longrightarrow> pool_ok n (snd (EnterLameDuck f))"
  by (simp add: pool_ok_def EnterLameDuck_def)

lemma pool_ok_fill_iteration: "pool_ok n f \<Longrightarrow> pool_ok n (snd (fill_iteration i f))"
  by (auto simp: pool_ok_def fill_iteration_def log_effect_def chan_send_def Let_def
           split: option.splits)

lemma pool_ok_Stop: "pool_ok n f \<Longrightarrow> pool_ok n (snd (Stop f))"
proof -
  assume p: "pool_ok n f"
  show ?thesis
  proof (cases "closing f + 1 = 1 \<and> \<not> closed (poolVMs f)")
    case True
    let ?g = "f\<lparr>closing := closing f + 1,
                effects := effects f @ [Log Debug ''Firecracker process manager stopping''],
                poolVMs := (poolVMs f)\<lparr>closed := True\<rparr>\<rparr>"
    obtain r f3 where s: "stop_all (map fst (allVMs f)) ?g = (r, f3)"
      by (cases "stop_all (map fst (allVMs f)) ?g")
    from stop_all_pool [of "map fst (allVMs f)" ?g] s
    have "poolVMs f3 = (poolVMs f)\<lparr>closed := True\<rparr>" "MachinePoolSize f3 = MachinePoolSize f" by simp_all
    then show ?thesis using True p s
      by (simp add: Stop_def Let_def chan_close_def pool_ok_def split: outcome.splits)
  next
    case False
    then show ?thesis using p
      by (auto simp: Stop_def Let_def chan_close_def pool_ok_def)
  qed
qed

lemma pool_ok_run_ops: "pool_ok n f \<Longrightarrow> pool_ok n (run_ops ops f)"
proof (induction ops arbitrary: f)
  case Nil
  then show ?case by simp
next
  case (Cons x ops)
  have "pool_ok n (apply_op x f)"
    using Cons.prems
    by (cases x) (simp_all add: pool_ok_fill_iteration pool_ok_PrepareWorkload pool_ok_StopProcess
                     pool_ok_Stop pool_ok_EnterLameDuck)
  then show ?case using Cons.IH by simp
qed

text \<open>
  Claim C6. From a manager made by \<^verbatim>\<open>NewFirecrackerProcessManager\<close> with pool size
  \<open>n\<close>, after any sequence of fill-loop iterations and calls of \<^verbatim>\<open>PrepareWorkload\<close>,
  \<^verbatim>\<open>StopProcess\<close>, \<^verbatim>\<open>Stop\<close> and \<^verbatim>\<open>EnterLameDuck\<close>, the channel holds at least 0 and
  at most \<open>n\<close> VMs.
\<close>

theorem warm_channel_bounded:
  assumes "NewFirecrackerProcessManager n p tm vs rs = Some f0"
  shows "0 \<le> int (length (buf (poolVMs (run_ops ops f0))))
       \<and> int (length (buf (poolVMs (run_ops ops f0)))) \<le> n"
proof -
  from assms have "pool_ok n f0"
    by (auto simp: NewFirecrackerProcessManager_def pool_ok_def split: if_splits)
  then have "pool_ok n (run_ops ops f0)" by (rule pool_ok_run_ops)
  then show ?thesis by (simp add: pool_ok_def)
qed

theorem warm_channel_bounded_witness:
  "NewFirecrackerProcessManager 1 True (\<lambda>k. 0) (\<lambda>p. vm0) (\<lambda>p. req0) = Some pm_new
   \<and> 0 \<le> int (length (buf (poolVMs (run_ops ops0 pm_new))))
   \<and> int (length (buf (poolVMs (run_ops ops0 pm_new)))) \<le> 1
   \<and> buf (poolVMs (run_ops [OpFill fill_ok, OpFill fill_ok] pm_new)) = [0]"
proof -
  have a: "NewFirecrackerProcessManager 1 True (\<lambda>k. 0) (\<lambda>p. vm0) (\<lambda>p. req0) = Some pm_new"
    by (simp add: NewFirecrackerProcessManager_def pm_new_def)
  have b: "buf (poolVMs (run_ops [OpFill fill_ok, OpFill fill_ok] pm_new)) = [0]"
    by (simp add: fill_iteration_def stopping_def pm_new_def fill_ok_def chan_send_def Let_def vm0_def)
  from warm_channel_bounded [OF a, of ops0] a b show ?thesis by simp
qed

text \<open>The channel of the earlier \<^verbatim>\<open>MachineManager\<close> has capacity \<open>n - 1\<close> and is bounded likewise.\<close>

lemma NewMachineManager_cap:
  "NewMachineManager n v ms = Some m \<Longrightarrow> buf (warmVms m) = [] \<and> int (cap (warmVms m)) = n - 1"
  by (auto simp: NewMachineManager_def split: if_splits)

lemma fillPool_iteration_bounded:
  "length (buf (warmVms m)) \<le> cap (warmVms m) \<Longrightarrow>
   length (buf (warmVms (snd (fillPool_iteration c m)))) \<le> cap (warmVms (snd (fillPool_iteration c m)))
   \<and> cap (warmVms (snd (fillPool_iteration c m))) = cap (warmVms m)"
  by (auto simp: fillPool_iteration_def chan_send_def Let_def split: option.splits)

section \<open>Calling Stop more than once\<close>

lemma Stop_noop:
  "closing f \<noteq> 0 \<Longrightarrow> Stop f = (Returned None, f\<lparr>closing := closing f + 1\<rparr>)"
  by (simp add: Stop_def Let_def)

lemma Stop_calls_noop:
  "closing f \<noteq> 0 \<Longrightarrow> unat (closing f) + n \<le> 2 ^ 32 \<Longrightarrow>
   Stop_calls n f = (replicate n (Returned None), f\<lparr>closing := closing f + of_nat n\<rparr>)"
proof (induction n arbitrary: f)
  case 0
  then show ?case by simp
next
  case (Suc n)
  let ?g = "f\<lparr>closing := closing f + 1\<rparr>"
  have s: "Stop f = (Returned None, ?g)" using Suc.prems(1) by (rule Stop_noop)
  show ?case
  proof (cases n)
    case 0
    then show ?thesis using s by simp
  next
    case (Suc m)
    with Suc.prems(2) have lt: "unat (closing f) + 1 < 2 ^ 32" by simp
    then have u: "unat (closing f + 1) = unat (closing f) + 1"
      by (simp add: unat_word_ariths)
    then have nz: "closing ?g \<noteq> 0" by (auto simp: unat_eq_0 [symmetric] simp del: unat_eq_0)
    have le: "unat (closing ?g) + n \<le> 2 ^ 32" using u Suc.prems(2) by simp
    from Suc.IH [OF nz le] s show ?thesis by (simp add: add.assoc)
  qed
qed

lemma Stop_calls_add:
  "Stop_calls (m + n) f =
     (fst (Stop_calls m f) @ fst (Stop_calls n (snd (Stop_calls m f))),
      snd (Stop_calls n (snd (Stop_calls m f))))"
  by (induction m arbitrary: f) simp_all

lemma StopProcess_keys:
  assumes "fst ` set (allVMs f) \<subseteq> set (stopMutex f)"
  shows "fst (StopProcess w f) \<noteq> Panic \<and> fst (StopProcess w f) \<noteq> Blocks
       \<and> fst ` set (allVMs (snd (StopProcess w f))) \<subseteq> set (stopMutex (snd (StopProcess w f)))
       \<and> count_list (effects (snd (StopProcess w f))) CleanSockets = count_list (effects f) CleanSockets"
proof (cases "map_of (allVMs f) w")
  case None
  then show ?thesis using assms by (simp add: StopProcess_def)
next
  case (Some vm)
  then have "w \<in> fst ` set (allVMs f)" by (metis map_of_eq_None_iff option.distinct(1))
  with assms have m: "w \<in> set (stopMutex f)" by blast
  have "fst ` set (AList.delete w (allVMs f)) \<subseteq> set (removeAll w (stopMutex f))"
    using assms by (auto simp: AList.delete_eq)
  then show ?thesis using Some m by (simp add: StopProcess_def Let_def)
qed

lemma stop_all_keys:
  "fst ` set (allVMs f) \<subseteq> set (stopMutex f) \<Longrightarrow>
   fst (stop_all ids f) = Returned None
   \<and> count_list (effects (snd (stop_all ids f))) CleanSockets = count_list (effects f) CleanSockets"
proof (induction ids arbitrary: f)
  case Nil
  then show ?case by simp
next
  case (Cons w ids)
  obtain r f1 where s: "StopProcess w f = (r, f1)" by (cases "StopProcess w f")
  from StopProcess_keys [OF Cons.prems, of w] s
  have k: "r \<noteq> Panic" "r \<noteq> Blocks" "fst ` set (allVMs f1) \<subseteq> set (stopMutex f1)"
          "count_list (effects f1) CleanSockets = count_list (effects f) CleanSockets"
    by simp_all
  let ?f2 = "f1\<lparr>effects := effects f1 @ [Log Warn ''Failed to stop firecracker process'']\<rparr>"
  have k2: "fst ` set (allVMs ?f2) \<subseteq> set (stopMutex ?f2)" using k(3) by simp
  show ?case
    using s k Cons.IH [OF k(3)] Cons.IH [OF k2]
    by (cases r) (auto split: option.splits)
qed

lemma Stop_first:
  assumes "closing f = 0" and "\<not> closed (poolVMs f)" and "fst ` set (allVMs f) \<subseteq> set (stopMutex f)"
  shows "fst (Stop f) = Returned None \<and> closing (snd (Stop f)) = 1
       \<and> count_list (effects (snd (Stop f))) CleanSockets = count_list (effects f) CleanSockets + 1"
proof -
  let ?g = "f\<lparr>closing := 1,
              effects := effects f @ [Log Debug ''Firecracker process manager stopping''],
              poolVMs := (poolVMs f)\<lparr>closed := True\<rparr>\<rparr>"
  obtain r f3 where s: "stop_all (map fst (allVMs f)) ?g = (r, f3)"
    by (cases "stop_all (map fst (allVMs f)) ?g")
  have "fst ` set (allVMs ?g) \<subseteq> set (stopMutex ?g)" using assms(3) by simp
  from stop_all_keys [OF this, of "map fst (allVMs f)"] s
  have r: "r = Returned None" "count_list (effects f3) CleanSockets = count_list (effects f) CleanSockets"
    by simp_all
  from stop_all_pool [of "map fst (allVMs f)" ?g] s
  have c: "closing f3 = 1" by simp
  show ?thesis using assms(1,2) s r c
    by (simp add: Stop_def Let_def chan_close_def)
qed

text \<open>
  Claim C7, as the code has it. On a manager that has not been stopped (the counter is 0,
  the channel is open, every registered VM has its stop mutex), any number \<open>n\<close> of calls
  of \<^verbatim>\<open>Stop\<close> with \<open>0 < n < 2^32\<close> gives: every call returns nil; the state after the
  \<open>n\<close> calls is the state after the first call with the counter at \<open>n\<close>, so the calls
  after the first did nothing but count; and the teardown ran once (one more
  \<^verbatim>\<open>cleanSockets\<close> than before).
\<close>

theorem Stop_idempotent_below_wrap:
  assumes "closing f = 0" and "\<not> closed (poolVMs f)"
      and "fst ` set (allVMs f) \<subseteq> set (stopMutex f)"
      and "0 < n" and "n < 2 ^ 32"
  shows "fst (Stop_calls n f) = replicate n (Returned None)
       \<and> snd (Stop_calls n f) = (snd (Stop f))\<lparr>closing := of_nat n\<rparr>
       \<and> count_list (effects (snd (Stop_calls n f))) CleanSockets
           = count_list (effects f) CleanSockets + 1"
proof -
  from assms(4) obtain m where n: "n = Suc m" by (cases n) auto
  from Stop_first [OF assms(1-3)]
  have f: "fst (Stop f) = Returned None" "closing (snd (Stop f)) = 1"
          "count_list (effects (snd (Stop f))) CleanSockets = count_list (effects f) CleanSockets + 1"
    by simp_all
  have nz: "closing (snd (Stop f)) \<noteq> 0" using f(2) by simp
  have le: "unat (closing (snd (Stop f))) + m \<le> 2 ^ 32" using f(2) assms(5) n by simp
  from Stop_calls_noop [OF nz le]
  have r: "Stop_calls m (snd (Stop f))
            = (replicate m (Returned None), (snd (Stop f))\<lparr>closing := 1 + of_nat m\<rparr>)"
    using f(2) by simp
  show ?thesis using f r n by simp
qed

theorem Stop_idempotent_below_wrap_witness:
  "closing pm_warm = 0 \<and> \<not> closed (poolVMs pm_warm)
   \<and> fst ` set (allVMs pm_warm) \<subseteq> set (stopMutex pm_warm)
   \<and> fst (Stop_calls 3 pm_warm) = replicate 3 (Returned None)
   \<and> snd (Stop_calls 3 pm_warm) = (snd (Stop pm_warm))\<lparr>closing := 3\<rparr>
   \<and> count_list (effects (snd (Stop_calls 3 pm_warm))) CleanSockets = 1
   \<and> count_list (effects (snd (Stop pm_warm))) (VmShutdown 0) = 1"
proof -
  have h: "closing pm_warm = 0" "\<not> closed (poolVMs pm_warm)"
          "fst ` set (allVMs pm_warm) \<subseteq> set (stopMutex pm_warm)" "0 < (3::nat)" "(3::nat) < 2 ^ 32"
    by (simp_all add: pm_warm_def)
  have e: "count_list (effects pm_warm) CleanSockets = 0" by (simp add: pm_warm_def)
  have v: "count_list (effects (snd (Stop pm_warm))) (VmShutdown 0) = 1"
    by (simp add: Stop_def StopProcess_def pm_warm_def chan_close_def Let_def)
  note t = Stop_idempotent_below_wrap [OF h]
  have a: "fst (Stop_calls 3 pm_warm) = replicate 3 (Returned None)"
    using t [THEN conjunct1] .
  have b: "snd (Stop_calls 3 pm_warm) = (snd (Stop pm_warm))\<lparr>closing := 3\<rparr>"
    using t [THEN conjunct2, THEN conjunct1] by simp
  have c: "count_list (effects (snd (Stop_calls 3 pm_warm))) CleanSockets = 1"
    using t [THEN conjunct2, THEN conjunct2] e by simp
  show ?thesis by (intro conjI h(1) h(2) h(3) a b c v)
qed

text \<open>
  C7 as stated fails: \<^verbatim>\<open>closing\<close> is a \<^verbatim>\<open>uint32\<close> that \<^verbatim>\<open>atomic.AddUint32\<close> wraps.
  After \<open>2^32\<close> calls it is 0 again, and call number \<open>2^32 + 1\<close> enters the teardown a
  second time, where \<^verbatim>\<open>close\<close> of the closed channel panics: not the result of the
  first call, and not a no-op.
\<close>

theorem Stop_wraps_counterexample:
  "fst (Stop pm_new) = Returned None \<and> last (fst (Stop_calls 4294967297 pm_new)) = Panic"
proof -
  have h: "closing pm_new = 0" "\<not> closed (poolVMs pm_new)"
          "fst ` set (allVMs pm_new) \<subseteq> set (stopMutex pm_new)"
    by (simp_all add: pm_new_def)
  from Stop_first [OF h] have f: "fst (Stop pm_new) = Returned None" "closing (snd (Stop pm_new)) = 1"
    by simp_all
  have nz: "closing (snd (Stop pm_new)) \<noteq> 0" using f(2) by simp
  have le: "unat (closing (snd (Stop pm_new))) + 4294967295 \<le> 2 ^ 32" using f(2) by simp
  let ?g = "(snd (Stop pm_new))\<lparr>closing := 0\<rparr>"
  from Stop_calls_noop [OF nz le]
  have r: "snd (Stop_calls 4294967295 (snd (Stop pm_new))) = ?g"
    using f(2) by simp
  have c: "closed (poolVMs ?g)" by (simp add: Stop_def pm_new_def chan_close_def Let_def)
  have p: "fst (Stop ?g) = Panic" using c by (simp add: Stop_def Let_def chan_close_def)
  have "(4294967297::nat) = Suc 0 + (4294967295 + Suc 0)" by simp
  then have "Stop_calls 4294967297 pm_new = Stop_calls (Suc 0 + (4294967295 + Suc 0)) pm_new" by simp
  also have "last (fst \<dots>) = Panic"
    unfolding Stop_calls_add using r p by simp
  finally show ?thesis using f(1) by simp
qed

section \<open>The handshake handler\<close>

text \<open>
  Claim C10. When \<^verbatim>\<open>json.Unmarshal\<close> fails and leaves \<^verbatim>\<open>req\<close> nil, or leaves its \<^verbatim>\<open>ID\<close>
  or \<^verbatim>\<open>Message\<close> nil, the handler panics on \<^verbatim>\<open>*req.ID\<close> or \<^verbatim>\<open>*req.Message\<close> in the
  arguments of its error log: it does not log, does not return, and leaves the client as
  it was. A payload that is not JSON is such a message.
\<close>

theorem handleHandshake_undecodable_panics:
  assumes "unmarshal_err d" and "deref_fields (unmarshal_req d) = None"
  shows "handleHandshake d a = (True, a)"
  using assms by (simp add: handleHandshake_def handshake_reply_def)

theorem handleHandshake_undecodable_panics_witness:
  "unmarshal_err handshake_garbage \<and> deref_fields (unmarshal_req handshake_garbage) = None
   \<and> handleHandshake handshake_garbage NewAgentClient = (True, NewAgentClient)"
  using handleHandshake_undecodable_panics [of handshake_garbage NewAgentClient]
  by (simp add: handshake_garbage_def deref_fields_def)


lemma handleHandshake_decoded:
  assumes "\<not> unmarshal_err d"
  shows "handleHandshake d a =
     (case deref_fields (unmarshal_req d) of
        None \<Rightarrow> (True, a)
      | Some (i, m) \<Rightarrow>
          (False,
           if respond_ok d
           then a\<lparr>handshakeReceived := True,
                  trace := trace a @ [LogMsg Info ''Received agent handshake'', Respond True,
                                      StoreHandshakeReceived, HandshakeSucceeded i]\<rparr>
           else a\<lparr>trace := trace a @ [LogMsg Info ''Received agent handshake'', Respond False,
                                      LogMsg Error ''Failed to reply to agent handshake'']\<rparr>))"
  using assms
  by (simp add: handleHandshake_def handshake_reply_def add_action_def store_received_def
        call_succeeded_def Let_def split: option.splits)

text \<open>
  Claim C9. For a message that \<^verbatim>\<open>json.Unmarshal\<close> decodes without error, in what the
  handler adds to the trace the store to \<^verbatim>\<open>handshakeReceived\<close> and every call of
  \<^verbatim>\<open>handshakeSucceeded\<close> come after a reply that was sent, and the flag changes only if
  a reply was sent. If \<^verbatim>\<open>msg.Respond\<close> fails, the flag is as before, and neither the
  store nor the callback is in the trace. If it succeeds on a request with its \<^verbatim>\<open>ID\<close>
  and \<^verbatim>\<open>Message\<close>, the trace grows by the log line, the reply, the store and the
  callback, in this order.
\<close>

theorem handshake_response_before_success:
  assumes "\<not> unmarshal_err d"
  shows "(\<exists>new. trace (snd (handleHandshake d a)) = trace a @ new
            \<and> preceded (Respond True) StoreHandshakeReceived new
            \<and> (\<forall>i. preceded (Respond True) (HandshakeSucceeded i) new)
            \<and> (handshakeReceived (snd (handleHandshake d a)) \<noteq> handshakeReceived a
                  \<longrightarrow> Respond True \<in> set new)
            \<and> (\<not> respond_ok d \<longrightarrow>
                  StoreHandshakeReceived \<notin> set new \<and> (\<forall>i. HandshakeSucceeded i \<notin> set new)))
       \<and> (\<not> respond_ok d \<longrightarrow>
             handshakeReceived (snd (handleHandshake d a)) = handshakeReceived a)
       \<and> (respond_ok d \<longrightarrow> (\<forall>i m. deref_fields (unmarshal_req d) = Some (i, m) \<longrightarrow>
             handshakeReceived (snd (handleHandshake d a))
             \<and> trace (snd (handleHandshake d a))
                 = trace a @ [LogMsg Info ''Received agent handshake'', Respond True,
                              StoreHandshakeReceived, HandshakeSucceeded i]))"
proof (cases "deref_fields (unmarshal_req d)")
  case None
  then have "handleHandshake d a = (True, a)"
    using assms by (simp add: handleHandshake_decoded)
  then show ?thesis using None by simp
next
  case (Some p)
  obtain i m where p: "p = (i, m)" by (cases p)
  show ?thesis
  proof (cases "respond_ok d")
    case True
    then show ?thesis using Some p assms by (simp add: handleHandshake_decoded)
  next
    case False
    then show ?thesis using Some p assms by (simp add: handleHandshake_decoded)
  qed
qed

theorem handshake_response_before_success_witness:
  "\<not> unmarshal_err handshake_ok \<and> respond_ok handshake_ok
   \<and> deref_fields (unmarshal_req handshake_ok) = Some (''vm-1'', ''hello'')
   \<and> handshakeReceived (snd (handleHandshake handshake_ok NewAgentClient))
   \<and> trace (snd (handleHandshake handshake_ok NewAgentClient))
       = [LogMsg Info ''Received agent handshake'', Respond True,
          StoreHandshakeReceived, HandshakeSucceeded ''vm-1'']
   \<and> \<not> respond_ok (handshake_ok\<lparr>respond_ok := False\<rparr>)
   \<and> \<not> handshakeReceived (snd (handleHandshake (handshake_ok\<lparr>respond_ok := False\<rparr>) NewAgentClient))"
proof -
  have h: "\<not> unmarshal_err handshake_ok" "respond_ok handshake_ok"
          "deref_fields (unmarshal_req handshake_ok) = Some (''vm-1'', ''hello'')"
    by (simp_all add: handshake_ok_def deref_fields_def)
  have g: "\<not> unmarshal_err (handshake_ok\<lparr>respond_ok := False\<rparr>)"
          "\<not> respond_ok (handshake_ok\<lparr>respond_ok := False\<rparr>)"
    by (simp_all add: handshake_ok_def)
  have n: "trace NewAgentClient = []" "\<not> handshakeReceived NewAgentClient"
    by (simp_all add: NewAgentClient_def)
  from handshake_response_before_success [OF h(1), of NewAgentClient]
       handshake_response_before_success [OF g(1), of NewAgentClient]
  show ?thesis using h g n by simp
qed


section \<open>A rejected deployment\<close>

text \<open>
  Claim C3, as the code has it. When the agent answers with \<^verbatim>\<open>accepted=false\<close>,
  \<^verbatim>\<open>DeployWorkload\<close> returns the decoded response, which carries the flag and the agent's
  message, together with a nil error, and records the start time.
\<close>

theorem DeployWorkload_returns_rejection_as_response:
  assumes "\<not> Accepted r"
  shows "fst (DeployWorkload True (Reply (Some r)) now a) = (Some r, None)
       \<and> workloadStartedAt (snd (DeployWorkload True (Reply (Some r)) now a)) = now"
  by (simp add: DeployWorkload_def Let_def)

theorem DeployWorkload_returns_rejection_as_response_witness:
  "\<not> Accepted rejected
   \<and> fst (DeployWorkload True (Reply (Some rejected)) 5 NewAgentClient) = (Some rejected, None)
   \<and> workloadStartedAt (snd (DeployWorkload True (Reply (Some rejected)) 5 NewAgentClient)) = 5"
  using DeployWorkload_returns_rejection_as_response [of rejected 5 NewAgentClient]
  by (simp add: rejected_def)

text \<open>
  C3 as stated fails: for the answer \<^verbatim>\<open>{accepted:false, message:"bad digest"}\<close> the error
  returned is nil, not a rejection carrying the message.
\<close>

theorem DeployWorkload_rejected_counterexample:
  "Accepted rejected = False \<and> ResponseMessage rejected = Some ''bad digest''
   \<and> snd (fst (DeployWorkload True (Reply (Some rejected)) 5 NewAgentClient)) = None
   \<and> snd (fst (DeployWorkload True (Reply (Some rejected)) 5 NewAgentClient))
        \<noteq> Some (RejectedByAgent ''bad digest'')
   \<and> fst (fst (DeployWorkload True (Reply (Some rejected)) 5 NewAgentClient)) = Some rejected"
  by (simp add: DeployWorkload_def rejected_def Let_def)

text \<open>The earlier \<^verbatim>\<open>DispatchWork\<close> does turn the rejection into an error.\<close>

lemma DispatchWork_rejected:
  "\<not> WorkAccepted r \<Longrightarrow> WorkMessage r = Some m \<Longrightarrow>
   DispatchWork (WorkReply (Some r)) now ns request vm = (DispatchReturned (Some (RejectedByAgent m)), vm)"
  by (simp add: DispatchWork_def)

section \<open>The handshake watchdog\<close>

lemma run_append: "run (xs @ ys) n = run ys (run xs n)"
  by (induction xs arbitrary: n) simp_all

lemma handshake_reply_facts:
  "\<exists>xs. snd (handshake_reply d a) = add_action xs a
         \<and> filter is_timeout xs = [] \<and> \<not> list_ex is_success xs"
proof (cases "deref_fields (unmarshal_req d)")
  case None
  then have "snd (handshake_reply d a) = add_action [] a"
    by (simp add: handshake_reply_def add_action_def)
  then show ?thesis by force
next
  case (Some p)
  obtain i m where p: "p = (i, m)" by (cases p)
  consider "unmarshal_err d" | "\<not> unmarshal_err d" "respond_ok d" | "\<not> unmarshal_err d" "\<not> respond_ok d"
    by blast
  then show ?thesis
  proof cases
    case 1
    then have "snd (handshake_reply d a) = add_action [LogMsg Error ''Failed to handle agent handshake''] a"
      using Some p by (simp add: handshake_reply_def)
    then show ?thesis by force
  next
    case 2
    then have "snd (handshake_reply d a) = add_action [LogMsg Info ''Received agent handshake'', Respond True] a"
      using Some p by (simp add: handshake_reply_def add_action_def Let_def)
    then show ?thesis by force
  next
    case 3
    then have "snd (handshake_reply d a) =
          add_action [LogMsg Info ''Received agent handshake'', Respond False,
                      LogMsg Error ''Failed to reply to agent handshake''] a"
      using Some p by (simp add: handshake_reply_def add_action_def Let_def)
    then show ?thesis by force
  qed
qed

lemma handshake_reply_keeps:
  "filter is_timeout (trace (snd (handshake_reply d a))) = filter is_timeout (trace a)"
  "list_ex is_success (trace (snd (handshake_reply d a))) = list_ex is_success (trace a)"
  "handshakeReceived (snd (handshake_reply d a)) = handshakeReceived a"
  "agentID (snd (handshake_reply d a)) = agentID a"
proof -
  obtain xs where x: "snd (handshake_reply d a) = add_action xs a"
      "filter is_timeout xs = []" "\<not> list_ex is_success xs"
    using handshake_reply_facts [of d a] by blast
  show "filter is_timeout (trace (snd (handshake_reply d a))) = filter is_timeout (trace a)"
    using x by (simp add: add_action_def)
  show "list_ex is_success (trace (snd (handshake_reply d a))) = list_ex is_success (trace a)"
    using x by (auto simp: add_action_def list_ex_iff)
  show "handshakeReceived (snd (handshake_reply d a)) = handshakeReceived a"
       "agentID (snd (handshake_reply d a)) = agentID a"
    using x by (simp_all add: add_action_def)
qed

lemma handshake_reply_pair:
  assumes "handshake_reply d a = (r, a')"
  shows "filter is_timeout (trace a') = filter is_timeout (trace a)
       \<and> list_ex is_success (trace a') = list_ex is_success (trace a)
       \<and> handshakeReceived a' = handshakeReceived a \<and> agentID a' = agentID a"
  using handshake_reply_keeps [of d a] assms by simp

lemma wd_inv_step: "wd_inv n \<Longrightarrow> wd_inv (do_step x n)"
proof (cases x)
  case TimerExpires
  assume "wd_inv n"
  then show ?thesis using TimerExpires
    by (auto simp: wd_inv_def timeouts_def succeeded_def split: wd_state.splits hs_state.splits if_splits)
next
  case WdCall
  assume "wd_inv n"
  then show ?thesis using WdCall
    by (auto simp: wd_inv_def timeouts_def succeeded_def add_action_def list_ex_iff
             split: wd_state.splits hs_state.splits if_splits)
next
  case (Deliver d)
  assume i: "wd_inv n"
  obtain r a' where h: "handshake_reply d (client n) = (r, a')" by (cases "handshake_reply d (client n)")
  note k = handshake_reply_pair [OF h]
  show ?thesis using i Deliver h k
    by (cases r; cases "hs n")
       (auto simp: wd_inv_def timeouts_def succeeded_def split: if_splits)
next
  case HsStore
  assume "wd_inv n"
  then show ?thesis using HsStore
    by (auto simp: wd_inv_def timeouts_def succeeded_def store_received_def add_action_def list_ex_iff
             split: wd_state.splits hs_state.splits if_splits)
next
  case HsCall
  assume "wd_inv n"
  then show ?thesis using HsCall
    by (auto simp: wd_inv_def timeouts_def succeeded_def call_succeeded_def add_action_def list_ex_iff
             split: wd_state.splits hs_state.splits if_splits)
qed

lemma wd_inv_run: "wd_inv n \<Longrightarrow> wd_inv (run xs n)"
  by (induction xs arbitrary: n) (simp_all add: wd_inv_step)

lemma wd_inv_start: "wd_inv (start_node aid)"
  by (simp add: wd_inv_def start_node_def timeouts_def succeeded_def AgentClient_Start_def NewAgentClient_def)


lemma crashed_step: "crashed n \<Longrightarrow> do_step x n = n"
  by (cases x) simp_all

lemma crashed_run: "crashed n \<Longrightarrow> run xs n = n"
  by (induction xs arbitrary: n) (simp_all add: crashed_step)

lemma agentID_step: "agentID (client (do_step x n)) = agentID (client n)"
proof (cases x)
  case (Deliver d)
  obtain r a' where h: "handshake_reply d (client n) = (r, a')" by (cases "handshake_reply d (client n)")
  note k = handshake_reply_pair [OF h]
  show ?thesis using Deliver h k by (cases r; cases "hs n") auto
qed (auto simp: add_action_def store_received_def call_succeeded_def split: wd_state.splits hs_state.splits)

lemma agentID_run: "agentID (client (run xs n)) = agentID (client n)"
  by (induction xs arbitrary: n) (simp_all add: agentID_step)

text \<open>Once the flag is set and the watchdog has not loaded \<open>False\<close>, no step calls the timeout.\<close>

lemma flagged_step:
  assumes "handshakeReceived (client n)" and "wd n \<noteq> WdLoaded False"
  shows "handshakeReceived (client (do_step x n)) \<and> wd (do_step x n) \<noteq> WdLoaded False
       \<and> timeouts (do_step x n) = timeouts n"
proof (cases x)
  case (Deliver d)
  obtain r a' where h: "handshake_reply d (client n) = (r, a')" by (cases "handshake_reply d (client n)")
  note k = handshake_reply_pair [OF h]
  show ?thesis using assms Deliver h k by (cases r; cases "hs n") (auto simp: timeouts_def)
qed (use assms in \<open>auto simp: timeouts_def add_action_def store_received_def call_succeeded_def
                    split: wd_state.splits hs_state.splits\<close>)

lemma flagged_run:
  "handshakeReceived (client n) \<Longrightarrow> wd n \<noteq> WdLoaded False \<Longrightarrow> timeouts (run xs n) = timeouts n"
proof (induction xs arbitrary: n)
  case Nil
  then show ?case by simp
next
  case (Cons x xs)
  from flagged_step [OF Cons.prems, of x] Cons.IH [of "do_step x n"] show ?case by simp
qed

text \<open>A watchdog that has loaded \<open>False\<close> keeps that value until it acts on it.\<close>

lemma loaded_step: "wd n = WdLoaded False \<Longrightarrow> x \<noteq> WdCall \<Longrightarrow> wd (do_step x n) = WdLoaded False"
proof (cases x)
  case (Deliver d)
  assume "wd n = WdLoaded False"
  then show ?thesis using Deliver
    by (cases "hs n"; cases "handshake_reply d (client n)"; cases "fst (handshake_reply d (client n))") auto
qed (auto split: hs_state.splits)

lemma loaded_run: "wd n = WdLoaded False \<Longrightarrow> WdCall \<notin> set xs \<Longrightarrow> wd (run xs n) = WdLoaded False"
proof (induction xs arbitrary: n)
  case Nil
  then show ?case by simp
next
  case (Cons x xs)
  from Cons.prems have "x \<noteq> WdCall" "WdCall \<notin> set xs" by auto
  with Cons.prems(1) Cons.IH [of "do_step x n"] loaded_step [of n x] show ?case by simp
qed

text \<open>
  Claim C2, as the code has it. From a started client, under every schedule of the steps
  of the two goroutines: \<^verbatim>\<open>handshakeTimedOut\<close> is called at most once; a watchdog that
  loads \<open>False\<close> from \<^verbatim>\<open>handshakeReceived\<close> when its timer fires calls
  \<^verbatim>\<open>handshakeTimedOut\<close> with the agent's id when it next runs, whatever the handler does
  in between (short of a panic); and a watchdog whose timer fires after
  \<^verbatim>\<open>handshakeSucceeded\<close> has been called never calls \<^verbatim>\<open>handshakeTimedOut\<close>, because the
  handler stores the flag before it calls \<^verbatim>\<open>handshakeSucceeded\<close>.
\<close>

theorem watchdog_fires_once_unless_flag_seen:
  "timeouts (run sched (start_node aid)) \<le> 1
   \<and> (wd (run pre (start_node aid)) = WdSleeping
        \<and> \<not> handshakeReceived (client (run pre (start_node aid)))
        \<and> WdCall \<notin> set mid
        \<and> \<not> crashed (run (pre @ TimerExpires # mid) (start_node aid))
      \<longrightarrow> trace (client (run (pre @ TimerExpires # mid @ [WdCall]) (start_node aid)))
            = trace (client (run (pre @ TimerExpires # mid) (start_node aid))) @ [HandshakeTimedOut aid])
   \<and> (wd (run pre (start_node aid)) = WdSleeping \<and> succeeded (run pre (start_node aid))
      \<longrightarrow> timeouts (run (pre @ post) (start_node aid)) = 0)"
proof (intro conjI impI)
  have "wd_inv (run sched (start_node aid))" by (rule wd_inv_run [OF wd_inv_start])
  then show "timeouts (run sched (start_node aid)) \<le> 1"
    by (auto simp: wd_inv_def split: if_splits)
next
  let ?s = "run pre (start_node aid)"
  assume a: "wd ?s = WdSleeping \<and> \<not> handshakeReceived (client ?s) \<and> WdCall \<notin> set mid
             \<and> \<not> crashed (run (pre @ TimerExpires # mid) (start_node aid))"
  have nc: "\<not> crashed ?s"
  proof
    assume "crashed ?s"
    then have "run (TimerExpires # mid) ?s = ?s" by (rule crashed_run)
    with \<open>crashed ?s\<close> a show False by (simp add: run_append)
  qed
  let ?t = "run mid (do_step TimerExpires ?s)"
  have "wd (do_step TimerExpires ?s) = WdLoaded False" using a nc by simp
  then have w: "wd ?t = WdLoaded False" using a by (simp add: loaded_run)
  have c: "\<not> crashed ?t" using a by (simp add: run_append)
  have "agentID (client ?t) = agentID (client (start_node aid))"
    by (simp only: agentID_run agentID_step)
  then have i: "agentID (client ?t) = aid"
    by (simp add: start_node_def AgentClient_Start_def)
  have "trace (client (do_step WdCall ?t)) = trace (client ?t) @ [HandshakeTimedOut aid]"
    using w c i by (simp add: add_action_def)
  then show "trace (client (run (pre @ TimerExpires # mid @ [WdCall]) (start_node aid)))
            = trace (client (run (pre @ TimerExpires # mid) (start_node aid))) @ [HandshakeTimedOut aid]"
    by (simp add: run_append)
next
  let ?s = "run pre (start_node aid)"
  assume a: "wd ?s = WdSleeping \<and> succeeded ?s"
  have v: "wd_inv ?s" by (rule wd_inv_run [OF wd_inv_start])
  then have f: "handshakeReceived (client ?s)" using a by (auto simp: wd_inv_def split: if_splits)
  have z: "timeouts ?s = 0" using v a by (auto simp: wd_inv_def split: if_splits)
  have "timeouts (run post ?s) = timeouts ?s" using f a by (intro flagged_run) simp_all
  then show "timeouts (run (pre @ post) (start_node aid)) = 0" using z by (simp add: run_append)
qed

lemma run_handshake_ok:
  "run [Deliver handshake_ok, HsStore, HsCall] (start_node ''vm-1'') =
     \<lparr>client = \<lparr>agentID = ''vm-1'', handshakeReceived = True, workloadStartedAt = 0,
                trace = [LogMsg Info ''Agent client starting'', LogMsg Info ''Received agent handshake'',
                         Respond True, StoreHandshakeReceived, HandshakeSucceeded ''vm-1'']\<rparr>,
      wd = WdSleeping, hs = HsIdle, crashed = False\<rparr>"
  by (simp add: start_node_def AgentClient_Start_def NewAgentClient_def handshake_ok_def
        handshake_reply_def deref_fields_def add_action_def store_received_def call_succeeded_def Let_def)

theorem watchdog_fires_once_unless_flag_seen_witness:
  "wd (run [] (start_node ''vm-1'')) = WdSleeping
   \<and> \<not> handshakeReceived (client (run [] (start_node ''vm-1'')))
   \<and> WdCall \<notin> set [Deliver handshake_ok]
   \<and> \<not> crashed (run ([] @ TimerExpires # [Deliver handshake_ok]) (start_node ''vm-1''))
   \<and> trace (client (run ([] @ TimerExpires # [Deliver handshake_ok] @ [WdCall]) (start_node ''vm-1'')))
       = [LogMsg Info ''Agent client starting'', LogMsg Info ''Received agent handshake'',
          Respond True, HandshakeTimedOut ''vm-1'']
   \<and> wd (run [Deliver handshake_ok, HsStore, HsCall] (start_node ''vm-1'')) = WdSleeping
   \<and> succeeded (run [Deliver handshake_ok, HsStore, HsCall] (start_node ''vm-1''))
   \<and> timeouts (run ([Deliver handshake_ok, HsStore, HsCall] @ [TimerExpires, WdCall]) (start_node ''vm-1'')) = 0"
proof -
  have a: "wd (run [] (start_node ''vm-1'')) = WdSleeping"
          "\<not> handshakeReceived (client (run [] (start_node ''vm-1'')))"
          "WdCall \<notin> set [Deliver handshake_ok]"
    by (simp_all add: start_node_def AgentClient_Start_def NewAgentClient_def)
  have b: "\<not> crashed (run ([] @ TimerExpires # [Deliver handshake_ok]) (start_node ''vm-1''))"
          "trace (client (run ([] @ TimerExpires # [Deliver handshake_ok]) (start_node ''vm-1'')))
            = [LogMsg Info ''Agent client starting'', LogMsg Info ''Received agent handshake'', Respond True]"
    by (simp_all add: start_node_def AgentClient_Start_def NewAgentClient_def handshake_ok_def
          handshake_reply_def deref_fields_def add_action_def Let_def)
  have c: "wd (run [Deliver handshake_ok, HsStore, HsCall] (start_node ''vm-1'')) = WdSleeping"
          "succeeded (run [Deliver handshake_ok, HsStore, HsCall] (start_node ''vm-1''))"
    unfolding run_handshake_ok by (simp_all add: succeeded_def)
  note t1 = watchdog_fires_once_unless_flag_seen
             [where sched = "[]" and aid = "''vm-1''" and pre = "[]" and mid = "[Deliver handshake_ok]"
                and post = "[]"]
  note t2 = watchdog_fires_once_unless_flag_seen
             [where sched = "[]" and aid = "''vm-1''" and pre = "[Deliver handshake_ok, HsStore, HsCall]"
                and mid = "[]" and post = "[TimerExpires, WdCall]"]
  have d: "trace (client (run ([] @ TimerExpires # [Deliver handshake_ok] @ [WdCall]) (start_node ''vm-1'')))
       = [LogMsg Info ''Agent client starting'', LogMsg Info ''Received agent handshake'',
          Respond True, HandshakeTimedOut ''vm-1'']"
    using t1 [THEN conjunct2, THEN conjunct1] a b by simp
  have e: "timeouts (run ([Deliver handshake_ok, HsStore, HsCall] @ [TimerExpires, WdCall]) (start_node ''vm-1'')) = 0"
    using t2 [THEN conjunct2, THEN conjunct2] c by blast
  show ?thesis by (intro conjI a b(1) c d e)
qed

text \<open>
  C2 as stated fails. The watchdog loads the flag and then calls; the handler stores the
  flag and then calls; nothing is a compare-and-set. First schedule: the watchdog loads
  \<open>False\<close>, the handler replies, stores and calls \<^verbatim>\<open>handshakeSucceeded\<close>, and then the
  watchdog calls \<^verbatim>\<open>handshakeTimedOut\<close>: a timeout after the success. Second schedule: the
  flag is \<open>False\<close> at the timeout, the watchdog calls \<^verbatim>\<open>handshakeTimedOut\<close>, and a
  handshake that arrives later still calls \<^verbatim>\<open>handshakeSucceeded\<close>.
\<close>

theorem watchdog_after_success_counterexample:
  "wd (run [TimerExpires] (start_node ''vm-1'')) = WdLoaded False
   \<and> trace (client (run [TimerExpires, Deliver handshake_ok, HsStore, HsCall, WdCall] (start_node ''vm-1'')))
       = [LogMsg Info ''Agent client starting'', LogMsg Info ''Received agent handshake'', Respond True,
          StoreHandshakeReceived, HandshakeSucceeded ''vm-1'', HandshakeTimedOut ''vm-1'']
   \<and> trace (client (run [TimerExpires, WdCall, Deliver handshake_ok, HsStore, HsCall] (start_node ''vm-1'')))
       = [LogMsg Info ''Agent client starting'', HandshakeTimedOut ''vm-1'',
          LogMsg Info ''Received agent handshake'', Respond True,
          StoreHandshakeReceived, HandshakeSucceeded ''vm-1'']"
  by (simp add: start_node_def AgentClient_Start_def NewAgentClient_def handshake_ok_def
        handshake_reply_def deref_fields_def add_action_def store_received_def call_succeeded_def Let_def)

text \<open>Run without anything in between, the steps of a goroutine are the function of the source.\<close>

lemma handler_steps:
  "hs n = HsIdle \<Longrightarrow> \<not> crashed n \<Longrightarrow>
   client (run [Deliver d, HsStore, HsCall] n) = snd (handleHandshake d (client n))
   \<and> crashed (run [Deliver d, HsStore, HsCall] n) = fst (handleHandshake d (client n))"
  by (cases "handshake_reply d (client n)"; cases "fst (handshake_reply d (client n))")
     (auto simp: handleHandshake_def)

lemma watchdog_steps:
  "wd n = WdSleeping \<Longrightarrow> \<not> crashed n \<Longrightarrow>
   client (run [TimerExpires, WdCall] n) = awaitHandshake (agentID (client n)) (client n)"
  by (simp add: awaitHandshake_def)

end
